theory Spec2Isabelle
  imports Main
begin

section \<open>Go values used by the package\<close>

text \<open>
  A Go string is a byte sequence: \<open>string\<close>. A Go slice is modelled by the list of
  its elements. Where the package hands a slice to \<open>encoding/json\<close> as it received it
  (\<open>FactSet.Facts\<close>, \<open>Table.Columns\<close>, \<open>MSTeamsInfo.Entities\<close>) the nil slice and
  the empty slice are told apart, because the encoder writes \<open>null\<close> for the first and
  \<open>[]\<close> for the second; the type \<open>'a slice\<close> keeps that difference. Every other
  slice of the package is only measured (\<open>len\<close>), ranged over, appended to or tested
  for emptiness (\<open>omitempty\<close>), where nil and empty agree, and is a plain list.

  The first sections work on trees: an element is the finite tree of its children and a
  slice is the list of its elements, so that \<open>append\<close> is list extension. That is
  what a card is as long as each backing array is used by one slice. The sections on
  memory model the backing arrays themselves: there \<open>append\<close> writes into an array
  that has room, the use of an array by one slice only is a hypothesis (\<open>without\<close>),
  under it the calls in memory do what the functions on trees say, and without it they
  do not (C2).
\<close>

datatype 'a slice = NilSlice | Slice "'a list"

fun elems :: "'a slice \<Rightarrow> 'a list" where
  "elems NilSlice = []"
| "elems (Slice xs) = xs"

text \<open>\<open>append(s, x)\<close>: the result is never nil.\<close>

definition append_slice :: "'a slice \<Rightarrow> 'a \<Rightarrow> 'a slice" where
  "append_slice s x = Slice (elems s @ [x])"

text \<open>The run-time panics the modelled statements can raise.\<close>

datatype panic = IndexOutOfRange | NilDereference

text \<open>\<open>xs[i] = v\<close> on a slice: a panic when \<open>i\<close> is not below \<open>len(xs)\<close>.\<close>

definition set_index :: "'a list \<Rightarrow> nat \<Rightarrow> 'a \<Rightarrow> panic + 'a list" where
  "set_index xs i v = (if i < length xs then Inr (xs[i := v]) else Inl IndexOutOfRange)"

section \<open>The data model\<close>

record TextBlock =
  TextBlock_Type :: string
  TextBlock_Text :: string
  TextBlock_Weight :: string
  TextBlock_Size :: string
  TextBlock_Wrap :: bool
  TextBlock_Separator :: bool

record Fact =
  Fact_Title :: string
  Fact_Value :: string

record FactSet =
  FactSet_Type :: string
  FactSet_Facts :: "Fact slice"

record TableCol =
  TableCol_Width :: string

text \<open>
  \<open>Element\<close> is the interface; its values are the four struct types with the methods
  \<open>isElement\<close> and \<open>toRaw\<close>. The structs that hold elements are mutually recursive with
  it. (The nil interface value is not an element of the data model.)
\<close>

datatype Element =
    ETextBlock TextBlock
  | EContainer Container
  | EFactSet FactSet
  | ETable Table
and Container =
    Container (Container_Type: string) (Container_Separator: bool)
      (Container_Items: "Element list")
and Table =
    Table (Table_Type: string) (Table_Columns: "TableCol slice")
      (Table_Rows: "TableRow list") (Table_FirstRowAsHeaders: bool)
and TableRow =
    TableRow (TableRow_Type: string) (TableRow_Cells: "TableCell list")
and TableCell =
    TableCell (TableCell_Type: string) (TableCell_Items: "Element list")

record Action =
  Action_Type :: string
  Action_Title :: string
  Action_Url :: string

record Mention =
  Mention_ID :: string
  Mention_Name :: string

record MSTeamsEntity =
  MSTeamsEntity_Type :: string
  MSTeamsEntity_Text :: string
  MSTeamsEntity_Mentioned :: Mention

record MSTeamsInfo =
  MSTeamsInfo_Entities :: "MSTeamsEntity slice"

text \<open>The root. \<open>MSTeams\<close> is a pointer: \<open>None\<close> is nil.\<close>

record AdaptiveCard =
  Card_Type :: string
  Card_Version :: string
  Card_Body :: "Element list"
  Card_Schema :: string
  Card_Actions :: "Action list"
  Card_MSTeams :: "MSTeamsInfo option"

section \<open>Constructors and mutation helpers\<close>

definition NewTextBlock :: "string \<Rightarrow> TextBlock" where
  "NewTextBlock text =
     \<lparr>TextBlock_Type = ''TextBlock'', TextBlock_Text = text, TextBlock_Weight = '''',
      TextBlock_Size = '''', TextBlock_Wrap = True, TextBlock_Separator = False\<rparr>"

text \<open>The pointer-receiver methods return the updated receiver.\<close>

definition WithWeight :: "TextBlock \<Rightarrow> string \<Rightarrow> TextBlock" where
  "WithWeight t weight = t\<lparr>TextBlock_Weight := weight\<rparr>"

definition WithSize :: "TextBlock \<Rightarrow> string \<Rightarrow> TextBlock" where
  "WithSize t sz = t\<lparr>TextBlock_Size := sz\<rparr>"

definition TextBlock_WithSeparator :: "TextBlock \<Rightarrow> TextBlock" where
  "TextBlock_WithSeparator t = t\<lparr>TextBlock_Separator := True\<rparr>"

definition NewContainer :: "Element list \<Rightarrow> Container" where
  "NewContainer items = Container ''Container'' False items"

fun Container_WithSeparator :: "Container \<Rightarrow> Container" where
  "Container_WithSeparator (Container ty sep items) = Container ty True items"

text \<open>A variadic parameter that received no argument is the nil slice.\<close>

definition NewFactSet :: "Fact slice \<Rightarrow> FactSet" where
  "NewFactSet facts = \<lparr>FactSet_Type = ''FactSet'', FactSet_Facts = facts\<rparr>"

definition NewTable :: Table where
  "NewTable = Table ''Table'' (Slice []) [] True"

definition NewTableCell :: "Element list \<Rightarrow> TableCell" where
  "NewTableCell items = TableCell ''TableCell'' items"

text \<open>
  The append helpers on trees: the receiver with the argument at the end of its list.
  \<open>AddBody_h\<close>, \<open>AddItem_h\<close>, \<open>AddColumn_h\<close> and \<open>AddRow_h\<close> below are the
  same calls on backing arrays.
\<close>

definition AddBody :: "AdaptiveCard \<Rightarrow> Element \<Rightarrow> AdaptiveCard" where
  "AddBody c el = c\<lparr>Card_Body := Card_Body c @ [el]\<rparr>"

definition AddAction :: "AdaptiveCard \<Rightarrow> Action \<Rightarrow> AdaptiveCard" where
  "AddAction c action = c\<lparr>Card_Actions := Card_Actions c @ [action]\<rparr>"

fun AddItem :: "Container \<Rightarrow> Element \<Rightarrow> Container" where
  "AddItem (Container ty sep items) el = Container ty sep (items @ [el])"

fun AddColumn :: "Table \<Rightarrow> string \<Rightarrow> Table" where
  "AddColumn (Table ty cols rows hdr) width =
     Table ty (append_slice cols \<lparr>TableCol_Width = width\<rparr>) rows hdr"

fun AddRow :: "Table \<Rightarrow> TableCell list \<Rightarrow> Table" where
  "AddRow (Table ty cols rows hdr) cells =
     Table ty cols (rows @ [TableRow ''TableRow'' cells]) hdr"

text \<open>\<open>fmt.Sprintf(" <at>%s</at>", displayName)\<close>\<close>

definition Sprintf_at :: "string \<Rightarrow> string" where
  "Sprintf_at displayName = '' <at>'' @ displayName @ ''</at>''"

text \<open>The loop \<open>for _, displayName := range mentions { text += ... }\<close>\<close>

fun build_text :: "string \<Rightarrow> string list \<Rightarrow> string" where
  "build_text text [] = text"
| "build_text text (displayName # mentions) =
     build_text (text @ Sprintf_at displayName) mentions"

definition team_entity :: MSTeamsEntity where
  "team_entity =
     \<lparr>MSTeamsEntity_Type = ''mention'', MSTeamsEntity_Text = ''@Team'',
      MSTeamsEntity_Mentioned =
        \<lparr>Mention_ID = ''19:general@thread.tacv2'', Mention_Name = ''Team''\<rparr>\<rparr>"

text \<open>
  \<open>AddMentionsMap\<close>: the last statement reads through the pointer \<open>c.MSTeams\<close>, a
  panic were it nil.
\<close>

definition AddMentionsMap :: "AdaptiveCard \<Rightarrow> string \<Rightarrow> string list \<Rightarrow> panic + AdaptiveCard" where
  "AddMentionsMap c textPrefix mentions =
     (let c1 = (if Card_MSTeams c = None
                then c\<lparr>Card_MSTeams := Some \<lparr>MSTeamsInfo_Entities = Slice []\<rparr>\<rparr>
                else c);
          text = build_text textPrefix mentions;
          c2 = AddBody c1 (ETextBlock (NewTextBlock text));
          entity = team_entity
      in case Card_MSTeams c2 of
           None \<Rightarrow> Inl NilDereference
         | Some info \<Rightarrow>
             Inr (c2\<lparr>Card_MSTeams :=
                    Some (info\<lparr>MSTeamsInfo_Entities :=
                                 append_slice (MSTeamsInfo_Entities info) entity\<rparr>)\<rparr>))"

section \<open>Flattening\<close>

text \<open>
  The values \<open>toRaw\<close> returns as \<open>any\<close>: a \<open>TextBlock\<close> or a \<open>FactSet\<close> itself, or
  one of three anonymous structs. \<open>Container.toRaw\<close> and \<open>TableCell.toRaw\<close> return the
  same struct type (\<open>Type\<close>, \<open>Items\<close>); \<open>TableRow.toRaw\<close> returns (\<open>Type\<close>, \<open>Cells\<close>)
  and \<open>Table.toRaw\<close> (\<open>Type\<close>, \<open>Columns\<close>, \<open>Rows\<close>). \<open>RawNil\<close> is the nil \<open>any\<close>, the
  zero value \<open>make\<close> fills a fresh \<open>[]any\<close> with.
\<close>

datatype Raw =
    RawNil
  | RawTextBlock TextBlock
  | RawFactSet FactSet
  | RawItems string "Raw list"
  | RawCells string "Raw list"
  | RawTable string "TableCol slice" "Raw list"

text \<open>\<open>make([]any, n)\<close>\<close>

definition make_any :: "nat \<Rightarrow> Raw list" where
  "make_any n = replicate n RawNil"

text \<open>
  The loop \<open>for i, el := range xs { out[i] = f(el) }\<close>, started at index \<open>i\<close> on the
  elements still to visit; it stops at the first panic.
\<close>

fun range_fill :: "('a \<Rightarrow> panic + Raw) \<Rightarrow> nat \<Rightarrow> 'a list \<Rightarrow> Raw list \<Rightarrow> panic + Raw list" where
  "range_fill f i [] out = Inr out"
| "range_fill f i (el # els) out =
     (case f el of
        Inl p \<Rightarrow> Inl p
      | Inr r \<Rightarrow>
          (case set_index out i r of
             Inl p \<Rightarrow> Inl p
           | Inr out' \<Rightarrow> range_fill f (Suc i) els out'))"

lemma range_fill_cong [fundef_cong]:
  "\<lbrakk>i = j; xs = ys; out = out'; \<And>x. x \<in> set ys \<Longrightarrow> f x = g x\<rbrakk>
   \<Longrightarrow> range_fill f i xs out = range_fill g j ys out'"
  by (induction ys arbitrary: i j xs out out') (auto split: sum.splits)

text \<open>
  \<open>toRaw\<close> on an interface value dispatches on the dynamic type. \<open>Container.toRaw\<close>
  writes the literal \<open>"Container"\<close>; the table family copies the \<open>Type\<close> field.
\<close>

fun toRaw :: "Element \<Rightarrow> panic + Raw"
and Container_toRaw :: "Container \<Rightarrow> panic + Raw"
and Table_toRaw :: "Table \<Rightarrow> panic + Raw"
and TableRow_toRaw :: "TableRow \<Rightarrow> panic + Raw"
and TableCell_toRaw :: "TableCell \<Rightarrow> panic + Raw"
where
  "toRaw (ETextBlock t) = Inr (RawTextBlock t)"
| "toRaw (EContainer c) = Container_toRaw c"
| "toRaw (EFactSet fs) = Inr (RawFactSet fs)"
| "toRaw (ETable t) = Table_toRaw t"
| "Container_toRaw (Container ty sep its) =
     (case range_fill toRaw 0 its (make_any (length its)) of
        Inl p \<Rightarrow> Inl p
      | Inr items \<Rightarrow> Inr (RawItems ''Container'' items))"
| "Table_toRaw (Table ty cols rws hdr) =
     (case range_fill TableRow_toRaw 0 rws (make_any (length rws)) of
        Inl p \<Rightarrow> Inl p
      | Inr rows \<Rightarrow> Inr (RawTable ty cols rows))"
| "TableRow_toRaw (TableRow ty cls) =
     (case range_fill TableCell_toRaw 0 cls (make_any (length cls)) of
        Inl p \<Rightarrow> Inl p
      | Inr cells \<Rightarrow> Inr (RawCells ty cells))"
| "TableCell_toRaw (TableCell ty its) =
     (case range_fill toRaw 0 its (make_any (length its)) of
        Inl p \<Rightarrow> Inl p
      | Inr items \<Rightarrow> Inr (RawItems ty items))"

section \<open>Serialization\<close>

text \<open>The anonymous struct \<open>MarshalJSON\<close> builds and hands to \<open>json.Marshal\<close>.\<close>

record RawCard =
  RawCard_Type :: string
  RawCard_Version :: string
  RawCard_Body :: "Raw list"
  RawCard_Schema :: string
  RawCard_Actions :: "Action list"
  RawCard_MSTeams :: "MSTeamsInfo option"

text \<open>
  \<open>MarshalJSON\<close>, with \<open>json.Marshal\<close> as the parameter \<open>marshal\<close>: the outer sum is a
  panic of the loop, the inner value is what \<open>marshal\<close> returned (its error or its
  bytes).
\<close>

definition MarshalJSON :: "(RawCard \<Rightarrow> 'e + 'b) \<Rightarrow> AdaptiveCard \<Rightarrow> panic + ('e + 'b)" where
  "MarshalJSON marshal c =
     (case range_fill toRaw 0 (Card_Body c) (make_any (length (Card_Body c))) of
        Inl p \<Rightarrow> Inl p
      | Inr body \<Rightarrow>
          Inr (marshal
            \<lparr>RawCard_Type = Card_Type c, RawCard_Version = Card_Version c,
             RawCard_Body = body, RawCard_Schema = Card_Schema c,
             RawCard_Actions = Card_Actions c, RawCard_MSTeams = Card_MSTeams c\<rparr>))"

subsection \<open>What \<open>encoding/json\<close> writes for the package's structs\<close>

text \<open>
  The document the encoder writes when it returns one, as a JSON value: an object lists
  its members in the order of the struct's fields, under the names of the \<open>json\<close> tags;
  a field tagged \<open>omitempty\<close> is left out when it is the empty string, \<open>false\<close>, a nil
  pointer or a slice of length zero. The rendering of the value as text is not modelled,
  and neither is what makes the encoder return an error instead.

  A string is written as the encoder decodes it: byte by byte, a sequence that is
  well-formed UTF-8 is kept, and every byte that does not start one is replaced by
  U+FFFD. \<open>utf8_len\<close> is the length of the well-formed sequence at the head of a string,
  0 when there is none (\<open>utf8.DecodeRuneInString\<close> returning \<open>RuneError\<close> with size 1).
\<close>

definition byte :: "char \<Rightarrow> nat" where
  "byte c = of_char c"

definition cont_byte :: "char \<Rightarrow> bool" where
  "cont_byte c = (0x80 \<le> byte c \<and> byte c \<le> 0xBF)"

definition second_lo :: "char \<Rightarrow> nat" where
  "second_lo c0 = (if byte c0 = 0xE0 then 0xA0 else if byte c0 = 0xF0 then 0x90 else 0x80)"

definition second_hi :: "char \<Rightarrow> nat" where
  "second_hi c0 = (if byte c0 = 0xED then 0x9F else if byte c0 = 0xF4 then 0x8F else 0xBF)"

definition utf8_len :: "string \<Rightarrow> nat" where
  "utf8_len s =
     (case s of
        [] \<Rightarrow> 0
      | c0 # cs \<Rightarrow>
          if byte c0 < 0x80 then 1
          else if 0xC2 \<le> byte c0 \<and> byte c0 \<le> 0xDF then
            (case cs of c1 # _ \<Rightarrow> if cont_byte c1 then 2 else 0 | _ \<Rightarrow> 0)
          else if 0xE0 \<le> byte c0 \<and> byte c0 \<le> 0xEF then
            (case cs of
               c1 # c2 # _ \<Rightarrow>
                 if second_lo c0 \<le> byte c1 \<and> byte c1 \<le> second_hi c0 \<and> cont_byte c2
                 then 3 else 0
             | _ \<Rightarrow> 0)
          else if 0xF0 \<le> byte c0 \<and> byte c0 \<le> 0xF4 then
            (case cs of
               c1 # c2 # c3 # _ \<Rightarrow>
                 if second_lo c0 \<le> byte c1 \<and> byte c1 \<le> second_hi c0 \<and> cont_byte c2
                    \<and> cont_byte c3
                 then 4 else 0
             | _ \<Rightarrow> 0)
          else 0)"

definition replacement_char :: string where
  "replacement_char = [CHR 0xEF, CHR 0xBF, CHR 0xBD]"

function utf8_coerce :: "string \<Rightarrow> string" where
  "utf8_coerce [] = []"
| "utf8_coerce (c # cs) =
     (if utf8_len (c # cs) = 0 then replacement_char @ utf8_coerce cs
      else take (utf8_len (c # cs)) (c # cs) @ utf8_coerce (drop (utf8_len (c # cs)) (c # cs)))"
  by pat_completeness auto
termination
  by (relation "measure length") auto

declare utf8_coerce.simps(2) [simp del]

datatype JSON =
    JNull
  | JBool bool
  | JString string
  | JArray "JSON list"
  | JObject "(string \<times> JSON) list"

definition json_string :: "string \<Rightarrow> JSON" where
  "json_string s = JString (utf8_coerce s)"

fun keys :: "JSON \<Rightarrow> string list" where
  "keys (JObject members) = map fst members"
| "keys _ = []"

definition omitempty_string :: "string \<Rightarrow> string \<Rightarrow> (string \<times> JSON) list" where
  "omitempty_string name s = (if s = [] then [] else [(name, json_string s)])"

definition omitempty_bool :: "string \<Rightarrow> bool \<Rightarrow> (string \<times> JSON) list" where
  "omitempty_bool name b = (if b then [(name, JBool b)] else [])"

fun slice_json :: "('a \<Rightarrow> JSON) \<Rightarrow> 'a slice \<Rightarrow> JSON" where
  "slice_json f NilSlice = JNull"
| "slice_json f (Slice xs) = JArray (map f xs)"

definition TextBlock_json :: "TextBlock \<Rightarrow> JSON" where
  "TextBlock_json t =
     JObject ([(''type'', json_string (TextBlock_Type t)), (''text'', json_string (TextBlock_Text t))]
       @ omitempty_string ''weight'' (TextBlock_Weight t)
       @ omitempty_string ''size'' (TextBlock_Size t)
       @ omitempty_bool ''wrap'' (TextBlock_Wrap t)
       @ omitempty_bool ''separator'' (TextBlock_Separator t))"

definition Fact_json :: "Fact \<Rightarrow> JSON" where
  "Fact_json f =
     JObject [(''title'', json_string (Fact_Title f)), (''value'', json_string (Fact_Value f))]"

definition FactSet_json :: "FactSet \<Rightarrow> JSON" where
  "FactSet_json fs =
     JObject [(''type'', json_string (FactSet_Type fs)),
              (''facts'', slice_json Fact_json (FactSet_Facts fs))]"

definition TableCol_json :: "TableCol \<Rightarrow> JSON" where
  "TableCol_json col = JObject [(''width'', json_string (TableCol_Width col))]"

fun Raw_json :: "Raw \<Rightarrow> JSON" where
  "Raw_json RawNil = JNull"
| "Raw_json (RawTextBlock t) = TextBlock_json t"
| "Raw_json (RawFactSet fs) = FactSet_json fs"
| "Raw_json (RawItems ty items) =
     JObject [(''type'', json_string ty), (''items'', JArray (map Raw_json items))]"
| "Raw_json (RawCells ty cells) =
     JObject [(''type'', json_string ty), (''cells'', JArray (map Raw_json cells))]"
| "Raw_json (RawTable ty cols rows) =
     JObject [(''type'', json_string ty), (''columns'', slice_json TableCol_json cols),
              (''rows'', JArray (map Raw_json rows))]"

definition Action_json :: "Action \<Rightarrow> JSON" where
  "Action_json a =
     JObject ([(''type'', json_string (Action_Type a)), (''title'', json_string (Action_Title a))]
       @ omitempty_string ''url'' (Action_Url a))"

definition Mention_json :: "Mention \<Rightarrow> JSON" where
  "Mention_json m =
     JObject [(''id'', json_string (Mention_ID m)), (''name'', json_string (Mention_Name m))]"

definition MSTeamsEntity_json :: "MSTeamsEntity \<Rightarrow> JSON" where
  "MSTeamsEntity_json e =
     JObject [(''type'', json_string (MSTeamsEntity_Type e)),
              (''text'', json_string (MSTeamsEntity_Text e)),
              (''mentioned'', Mention_json (MSTeamsEntity_Mentioned e))]"

definition MSTeamsInfo_json :: "MSTeamsInfo \<Rightarrow> JSON" where
  "MSTeamsInfo_json info =
     JObject [(''entities'', slice_json MSTeamsEntity_json (MSTeamsInfo_Entities info))]"

definition RawCard_json :: "RawCard \<Rightarrow> JSON" where
  "RawCard_json r =
     JObject ([(''type'', json_string (RawCard_Type r)),
               (''version'', json_string (RawCard_Version r)),
               (''body'', JArray (map Raw_json (RawCard_Body r))),
               (''$schema'', json_string (RawCard_Schema r))]
       @ (if RawCard_Actions r = [] then []
          else [(''actions'', JArray (map Action_json (RawCard_Actions r)))])
       @ (case RawCard_MSTeams r of
            None \<Rightarrow> []
          | Some info \<Rightarrow> [(''msteams'', MSTeamsInfo_json info)]))"

text \<open>An error returned by the encoder.\<close>

datatype error = MarshalError

section \<open>Sequences of calls on a table\<close>





section \<open>Flattening in memory\<close>

text \<open>
  The trees above are what a card is when each backing array is used by one slice. This
  section models the memory the Go program runs on, so that this is a hypothesis and not
  a convention. Memory is a sequence of backing arrays, addressed by position; a
  slice value names an array, an offset and a length, or is nil. An interface value of
  type \<open>Element\<close> holds a copy of a struct, or is the nil interface; the struct's slice
  fields refer to memory: the items of a container, the columns and the rows of a table.
  (The facts of a FactSet are kept with the struct: no function of the package writes to
  their array.) A method with a value receiver works on a copy of the struct, so the
  only memory a call can change is a backing array it indexes.
\<close>

type_synonym addr = nat

datatype ref = NilRef | Ref addr nat nat

fun ref_len :: "ref \<Rightarrow> nat" where
  "ref_len NilRef = 0"
| "ref_len (Ref a off n) = n"

datatype hElement =
    HNil
  | HTextBlock TextBlock
  | HContainer string bool ref
  | HFactSet FactSet
  | HTable string ref ref bool

datatype hTableRow = HTableRow string ref

datatype hTableCell = HTableCell string ref

text \<open>
  The values of type \<open>any\<close> that \<open>toRaw\<close> returns; their \<open>[]any\<close> fields refer to
  memory, and the columns of a flattened table are the slice value of the table, on the
  table's own array.
\<close>

datatype hRaw =
    HRawNil
  | HRawTextBlock TextBlock
  | HRawFactSet FactSet
  | HRawItems string ref
  | HRawCells string ref
  | HRawTable string ref ref

datatype block =
    Elements "hElement list"
  | TableRows "hTableRow list"
  | TableCells "hTableCell list"
  | TableCols "TableCol list"
  | Anys "hRaw list"

type_synonym heap = "block list"

fun as_Elements :: "block \<Rightarrow> hElement list option" where
  "as_Elements (Elements xs) = Some xs"
| "as_Elements _ = None"

fun as_TableRows :: "block \<Rightarrow> hTableRow list option" where
  "as_TableRows (TableRows xs) = Some xs"
| "as_TableRows _ = None"

fun as_TableCells :: "block \<Rightarrow> hTableCell list option" where
  "as_TableCells (TableCells xs) = Some xs"
| "as_TableCells _ = None"

fun as_TableCols :: "block \<Rightarrow> TableCol list option" where
  "as_TableCols (TableCols xs) = Some xs"
| "as_TableCols _ = None"

fun as_Anys :: "block \<Rightarrow> hRaw list option" where
  "as_Anys (Anys xs) = Some xs"
| "as_Anys _ = None"

text \<open>
  Reading \<open>s[i]\<close>. Go keeps every slice value within its array; a memory of the model
  in which a slice value is not, is not a state of a Go program, and reading there gives
  no value.
\<close>

fun read_at :: "(block \<Rightarrow> 'a list option) \<Rightarrow> heap \<Rightarrow> ref \<Rightarrow> nat \<Rightarrow> 'a option" where
  "read_at proj h NilRef i = None"
| "read_at proj h (Ref a off n) i =
     (if i < n \<and> a < length h
      then (case proj (h ! a) of
              None \<Rightarrow> None
            | Some xs \<Rightarrow> if off + i < length xs then Some (xs ! (off + i)) else None)
      else None)"

text \<open>
  \<open>s[i] = v\<close> on a \<open>[]any\<close>: the one statement of the package that writes to a
  backing array.
\<close>

fun write_any :: "heap \<Rightarrow> ref \<Rightarrow> nat \<Rightarrow> hRaw \<Rightarrow> panic + heap" where
  "write_any h NilRef i v = Inl IndexOutOfRange"
| "write_any h (Ref a off n) i v =
     (if i < n \<and> a < length h
      then (case as_Anys (h ! a) of
              None \<Rightarrow> Inl IndexOutOfRange
            | Some xs \<Rightarrow>
                if off + i < length xs then Inr (h[a := Anys (xs[off + i := v])])
                else Inl IndexOutOfRange)
      else Inl IndexOutOfRange)"

text \<open>
  \<open>make([]any, n)\<close> allocates a new backing array, at the first address not in use.
\<close>

definition make_h :: "heap \<Rightarrow> nat \<Rightarrow> heap \<times> ref" where
  "make_h h n = (h @ [Anys (replicate n HRawNil)], Ref (length h) 0 n)"

text \<open>
  A call returns \<open>None\<close> when it does not return (the recursion does not end), a panic,
  or its result.
\<close>

type_synonym 'a result = "(panic + 'a) option"

text \<open>
  The loop \<open>for i, el := range src { dst[i] = f(el) }\<close>: \<open>m\<close> iterations are left and
  \<open>i\<close> is the index of the next one. The length of \<open>src\<close> is taken once, each element
  is read when its iteration starts.
\<close>

fun fill_h :: "(block \<Rightarrow> 'a list option) \<Rightarrow> (heap \<Rightarrow> 'a \<Rightarrow> (heap \<times> hRaw) result)
    \<Rightarrow> ref \<Rightarrow> ref \<Rightarrow> nat \<Rightarrow> nat \<Rightarrow> heap \<Rightarrow> heap result" where
  "fill_h proj f src dst 0 i h = Some (Inr h)"
| "fill_h proj f src dst (Suc m) i h =
     (case read_at proj h src i of
        None \<Rightarrow> Some (Inl IndexOutOfRange)
      | Some el \<Rightarrow>
          (case f h el of
             None \<Rightarrow> None
           | Some (Inl p) \<Rightarrow> Some (Inl p)
           | Some (Inr (h1, r)) \<Rightarrow>
               (case write_any h1 dst i r of
                  Inl p \<Rightarrow> Some (Inl p)
                | Inr h2 \<Rightarrow> fill_h proj f src dst m (Suc i) h2)))"

text \<open>
  \<open>dst := make([]any, len(src))\<close> followed by the loop.
\<close>

definition flatten_slice :: "(block \<Rightarrow> 'a list option) \<Rightarrow> (heap \<Rightarrow> 'a \<Rightarrow> (heap \<times> hRaw) result)
    \<Rightarrow> heap \<Rightarrow> ref \<Rightarrow> (heap \<times> ref) result" where
  "flatten_slice proj f h src =
     (case make_h h (ref_len src) of
        (h1, dst) \<Rightarrow>
          (case fill_h proj f src dst (ref_len src) 0 h1 of
             None \<Rightarrow> None
           | Some (Inl p) \<Rightarrow> Some (Inl p)
           | Some (Inr h2) \<Rightarrow> Some (Inr (h2, dst))))"

text \<open>
  \<open>toRaw\<close> in memory. The first argument bounds the depth of nested calls; with none
  left the call does not return. \<open>toRaw\<close> on the nil interface panics.
\<close>

fun toRaw_h :: "nat \<Rightarrow> heap \<Rightarrow> hElement \<Rightarrow> (heap \<times> hRaw) result"
and TableRow_toRaw_h :: "nat \<Rightarrow> heap \<Rightarrow> hTableRow \<Rightarrow> (heap \<times> hRaw) result"
and TableCell_toRaw_h :: "nat \<Rightarrow> heap \<Rightarrow> hTableCell \<Rightarrow> (heap \<times> hRaw) result"
where
  "toRaw_h 0 h el = None"
| "toRaw_h (Suc k) h HNil = Some (Inl NilDereference)"
| "toRaw_h (Suc k) h (HTextBlock t) = Some (Inr (h, HRawTextBlock t))"
| "toRaw_h (Suc k) h (HContainer ty sep its) =
     (case flatten_slice as_Elements (toRaw_h k) h its of
        None \<Rightarrow> None
      | Some (Inl p) \<Rightarrow> Some (Inl p)
      | Some (Inr (h', items)) \<Rightarrow> Some (Inr (h', HRawItems ''Container'' items)))"
| "toRaw_h (Suc k) h (HFactSet fs) = Some (Inr (h, HRawFactSet fs))"
| "toRaw_h (Suc k) h (HTable ty cols rws hdr) =
     (case flatten_slice as_TableRows (TableRow_toRaw_h k) h rws of
        None \<Rightarrow> None
      | Some (Inl p) \<Rightarrow> Some (Inl p)
      | Some (Inr (h', rows)) \<Rightarrow> Some (Inr (h', HRawTable ty cols rows)))"
| "TableRow_toRaw_h 0 h tr = None"
| "TableRow_toRaw_h (Suc k) h (HTableRow ty cls) =
     (case flatten_slice as_TableCells (TableCell_toRaw_h k) h cls of
        None \<Rightarrow> None
      | Some (Inl p) \<Rightarrow> Some (Inl p)
      | Some (Inr (h', cells)) \<Rightarrow> Some (Inr (h', HRawCells ty cells)))"
| "TableCell_toRaw_h 0 h tc = None"
| "TableCell_toRaw_h (Suc k) h (HTableCell ty its) =
     (case flatten_slice as_Elements (toRaw_h k) h its of
        None \<Rightarrow> None
      | Some (Inl p) \<Rightarrow> Some (Inl p)
      | Some (Inr (h', items)) \<Rightarrow> Some (Inr (h', HRawItems ty items)))"

text \<open>
  \<open>MarshalJSON\<close> in memory. The encoder reads memory and the raw card, and writes
  nothing.
\<close>

record hCard =
  hCard_Type :: string
  hCard_Version :: string
  hCard_Body :: ref
  hCard_Schema :: string
  hCard_Actions :: "Action list"
  hCard_MSTeams :: "MSTeamsInfo option"

record hRawCard =
  hRawCard_Type :: string
  hRawCard_Version :: string
  hRawCard_Body :: ref
  hRawCard_Schema :: string
  hRawCard_Actions :: "Action list"
  hRawCard_MSTeams :: "MSTeamsInfo option"

definition MarshalJSON_h :: "(heap \<Rightarrow> hRawCard \<Rightarrow> 'e + 'b) \<Rightarrow> nat \<Rightarrow> heap \<Rightarrow> hCard
    \<Rightarrow> (heap \<times> ('e + 'b)) result" where
  "MarshalJSON_h marshal k h c =
     (case flatten_slice as_Elements (toRaw_h k) h (hCard_Body c) of
        None \<Rightarrow> None
      | Some (Inl p) \<Rightarrow> Some (Inl p)
      | Some (Inr (h', body)) \<Rightarrow>
          Some (Inr (h', marshal h'
            \<lparr>hRawCard_Type = hCard_Type c, hRawCard_Version = hCard_Version c,
             hRawCard_Body = body, hRawCard_Schema = hCard_Schema c,
             hRawCard_Actions = hCard_Actions c, hRawCard_MSTeams = hCard_MSTeams c\<rparr>)))"

subsection \<open>Well-formed memory\<close>

text \<open>
  \<open>ref_elems\<close> gives the elements a slice value denotes. \<open>repr h v e\<close> says that in
  memory \<open>h\<close> the interface value \<open>v\<close> is the finite tree \<open>e\<close>: there is no nil
  element and every slice lies within an array of the right element type. A memory in
  which a container reaches itself represents no tree. \<open>raw_repr lo h v r\<close> says the same
  of a flattened value, all of whose \<open>[]any\<close> arrays are at addresses from \<open>lo\<close> on.
  \<open>cols_value\<close> gives the columns a slice value denotes, nil or not.
\<close>

fun ref_elems :: "(block \<Rightarrow> 'a list option) \<Rightarrow> heap \<Rightarrow> ref \<Rightarrow> 'a list option" where
  "ref_elems proj h NilRef = Some []"
| "ref_elems proj h (Ref a off n) =
     (if a < length h
      then (case proj (h ! a) of
              None \<Rightarrow> None
            | Some xs \<Rightarrow> if off + n \<le> length xs then Some (take n (drop off xs)) else None)
      else None)"

fun cols_value :: "heap \<Rightarrow> ref \<Rightarrow> TableCol slice option" where
  "cols_value h NilRef = Some NilSlice"
| "cols_value h (Ref a off n) = map_option Slice (ref_elems as_TableCols h (Ref a off n))"

fun repr :: "heap \<Rightarrow> hElement \<Rightarrow> Element \<Rightarrow> bool"
and Container_repr :: "heap \<Rightarrow> hElement \<Rightarrow> Container \<Rightarrow> bool"
and Table_repr :: "heap \<Rightarrow> hElement \<Rightarrow> Table \<Rightarrow> bool"
and TableRow_repr :: "heap \<Rightarrow> hTableRow \<Rightarrow> TableRow \<Rightarrow> bool"
and TableCell_repr :: "heap \<Rightarrow> hTableCell \<Rightarrow> TableCell \<Rightarrow> bool"
where
  "repr h v (ETextBlock t) = (v = HTextBlock t)"
| "repr h v (EContainer c) = Container_repr h v c"
| "repr h v (EFactSet fs) = (v = HFactSet fs)"
| "repr h v (ETable t) = Table_repr h v t"
| "Container_repr h v (Container ty sep es) =
     (case v of
        HContainer ty' sep' its \<Rightarrow>
          ty' = ty \<and> sep' = sep \<and>
          (case ref_elems as_Elements h its of
             None \<Rightarrow> False
           | Some vs \<Rightarrow> list_all2 (repr h) vs es)
      | _ \<Rightarrow> False)"
| "Table_repr h v (Table ty cols rs hdr) =
     (case v of
        HTable ty' cols' rws hdr' \<Rightarrow>
          ty' = ty \<and> cols_value h cols' = Some cols \<and> hdr' = hdr \<and>
          (case ref_elems as_TableRows h rws of
             None \<Rightarrow> False
           | Some vs \<Rightarrow> list_all2 (TableRow_repr h) vs rs)
      | _ \<Rightarrow> False)"
| "TableRow_repr h (HTableRow ty' cls) (TableRow ty cs) =
     (ty' = ty \<and>
      (case ref_elems as_TableCells h cls of
         None \<Rightarrow> False
       | Some vs \<Rightarrow> list_all2 (TableCell_repr h) vs cs))"
| "TableCell_repr h (HTableCell ty' its) (TableCell ty es) =
     (ty' = ty \<and>
      (case ref_elems as_Elements h its of
         None \<Rightarrow> False
       | Some vs \<Rightarrow> list_all2 (repr h) vs es))"

fun raw_repr :: "nat \<Rightarrow> heap \<Rightarrow> hRaw \<Rightarrow> Raw \<Rightarrow> bool" where
  "raw_repr lo h v RawNil = (v = HRawNil)"
| "raw_repr lo h v (RawTextBlock t) = (v = HRawTextBlock t)"
| "raw_repr lo h v (RawFactSet fs) = (v = HRawFactSet fs)"
| "raw_repr lo h v (RawItems ty rs) =
     (case v of
        HRawItems ty' (Ref a off n) \<Rightarrow>
          ty' = ty \<and> lo \<le> a \<and>
          (case ref_elems as_Anys h (Ref a off n) of
             None \<Rightarrow> False
           | Some vs \<Rightarrow> list_all2 (raw_repr lo h) vs rs)
      | _ \<Rightarrow> False)"
| "raw_repr lo h v (RawCells ty rs) =
     (case v of
        HRawCells ty' (Ref a off n) \<Rightarrow>
          ty' = ty \<and> lo \<le> a \<and>
          (case ref_elems as_Anys h (Ref a off n) of
             None \<Rightarrow> False
           | Some vs \<Rightarrow> list_all2 (raw_repr lo h) vs rs)
      | _ \<Rightarrow> False)"
| "raw_repr lo h v (RawTable ty cols rs) =
     (case v of
        HRawTable ty' cols' (Ref a off n) \<Rightarrow>
          ty' = ty \<and> cols_value h cols' = Some cols \<and> lo \<le> a \<and>
          (case ref_elems as_Anys h (Ref a off n) of
             None \<Rightarrow> False
           | Some vs \<Rightarrow> list_all2 (raw_repr lo h) vs rs)
      | _ \<Rightarrow> False)"

definition Card_repr :: "heap \<Rightarrow> hCard \<Rightarrow> AdaptiveCard \<Rightarrow> bool" where
  "Card_repr h hc c =
     (hCard_Type hc = Card_Type c \<and> hCard_Version hc = Card_Version c
      \<and> hCard_Schema hc = Card_Schema c \<and> hCard_Actions hc = Card_Actions c
      \<and> hCard_MSTeams hc = Card_MSTeams c
      \<and> (case ref_elems as_Elements h (hCard_Body hc) of
            None \<Rightarrow> False
          | Some vs \<Rightarrow> list_all2 (repr h) vs (Card_Body c)))"

definition RawCard_repr :: "heap \<Rightarrow> hRawCard \<Rightarrow> RawCard \<Rightarrow> bool" where
  "RawCard_repr h hr r =
     (hRawCard_Type hr = RawCard_Type r \<and> hRawCard_Version hr = RawCard_Version r
      \<and> hRawCard_Schema hr = RawCard_Schema r \<and> hRawCard_Actions hr = RawCard_Actions r
      \<and> hRawCard_MSTeams hr = RawCard_MSTeams r
      \<and> (case hRawCard_Body hr of
            NilRef \<Rightarrow> False
          | Ref a off n \<Rightarrow>
              (case ref_elems as_Anys h (Ref a off n) of
                 None \<Rightarrow> False
               | Some vs \<Rightarrow> list_all2 (raw_repr 0 h) vs (RawCard_Body r))))"

text \<open>
  \<open>extends h h'\<close>: every array of \<open>h\<close> is in \<open>h'\<close>, at its address and with its
  contents.
\<close>

definition extends :: "heap \<Rightarrow> heap \<Rightarrow> bool" where
  "extends h h' = (length h \<le> length h' \<and> take (length h) h' = h)"

text \<open>
  A memory holding one array with one TextBlock, a container and a card over it, and the
  trees they represent.
\<close>

definition example_memory :: heap where
  "example_memory = [Elements [HTextBlock (NewTextBlock ''hi'')]]"

definition example_element :: hElement where
  "example_element = HContainer ''Container'' False (Ref 0 0 1)"

definition example_tree :: Element where
  "example_tree = EContainer (Container ''Container'' False [ETextBlock (NewTextBlock ''hi'')])"

definition example_hcard :: hCard where
  "example_hcard =
     \<lparr>hCard_Type = ''AdaptiveCard'', hCard_Version = ''1.6'', hCard_Body = Ref 0 0 1,
      hCard_Schema = ''http://adaptivecards.io/schemas/adaptive-card.json'',
      hCard_Actions = [], hCard_MSTeams = None\<rparr>"

definition example_card :: AdaptiveCard where
  "example_card =
     \<lparr>Card_Type = ''AdaptiveCard'', Card_Version = ''1.6'',
      Card_Body = [ETextBlock (NewTextBlock ''hi'')],
      Card_Schema = ''http://adaptivecards.io/schemas/adaptive-card.json'',
      Card_Actions = [], Card_MSTeams = None\<rparr>"

section \<open>Appending in memory\<close>



























section \<open>Strings the encoder keeps\<close>

lemma utf8_coerce_ascii_head:
  "byte c < 0x80 \<Longrightarrow> utf8_coerce (c # cs) = c # utf8_coerce cs"
  by (simp add: utf8_coerce.simps(2) utf8_len_def)

lemma utf8_coerce_ascii: "list_all (\<lambda>c. byte c < 0x80) s \<Longrightarrow> utf8_coerce s = s"
  by (induction s) (simp_all add: utf8_coerce_ascii_head)

lemma json_string_ascii: "list_all (\<lambda>c. byte c < 0x80) s \<Longrightarrow> json_string s = JString s"
  by (simp add: json_string_def utf8_coerce_ascii)

section \<open>The fill loop\<close>

lemma range_fill_map:
  "map f xs = map Inr rs \<Longrightarrow> i + length xs \<le> length out \<Longrightarrow>
   range_fill f i xs out = Inr (take i out @ rs @ drop (i + length xs) out)"
proof (induction xs arbitrary: i out rs)
  case Nil
  then show ?case by simp
next
  case (Cons x xs)
  from Cons.prems(1) obtain r rs' where rs: "rs = r # rs'" and fx: "f x = Inr r"
    and rest: "map f xs = map Inr rs'"
    by (cases rs) auto
  from Cons.prems(2) have i: "i < length out" by simp
  have len: "Suc i + length xs \<le> length (out[i := r])" using Cons.prems(2) by simp
  have "range_fill f i (x # xs) out = range_fill f (Suc i) xs (out[i := r])"
    using fx i by (simp add: set_index_def)
  also have "\<dots> = Inr (take (Suc i) (out[i := r]) @ rs' @ drop (Suc i + length xs) (out[i := r]))"
    by (rule Cons.IH [OF rest len])
  also have "take (Suc i) (out[i := r]) = take i out @ [r]"
    using i by (simp add: take_Suc_conv_app_nth)
  also have "drop (Suc i + length xs) (out[i := r]) = drop (i + length (x # xs)) out"
    by simp
  finally show ?case using rs by simp
qed

lemma range_fill_make:
  "map f xs = map Inr rs \<Longrightarrow> range_fill f 0 xs (make_any (length xs)) = Inr rs"
  using range_fill_map [of f xs rs 0 "make_any (length xs)"]
  by (simp add: make_any_def)

lemma all_Inr_map:
  "(\<And>x. x \<in> set xs \<Longrightarrow> \<exists>r. f x = Inr r) \<Longrightarrow> \<exists>rs. map f xs = map Inr rs"
proof (induction xs)
  case Nil
  then show ?case by simp
next
  case (Cons x xs)
  then obtain r where "f x = Inr r" by auto
  moreover from Cons obtain rs where "map f xs = map Inr rs" by auto
  ultimately have "map f (x # xs) = map Inr (r # rs)" by simp
  then show ?case by blast
qed

lemma toRaw_total_all:
  "(\<exists>r. toRaw e = Inr r)"
  "(\<exists>r. Container_toRaw c = Inr r)"
  "(\<exists>r. Table_toRaw t = Inr r)"
  "(\<exists>r. TableRow_toRaw tr = Inr r)"
  "(\<exists>r. TableCell_toRaw tc = Inr r)"
proof (induction e and c and t and tr and tc
    rule: toRaw_Container_toRaw_Table_toRaw_TableRow_toRaw_TableCell_toRaw.induct)
  case (5 ty sep its)
  then obtain rs where "map toRaw its = map Inr rs" using all_Inr_map by blast
  then show ?case by (simp add: range_fill_make)
next
  case (6 ty cols rws hdr)
  then obtain rs where "map TableRow_toRaw rws = map Inr rs" using all_Inr_map by blast
  then show ?case by (simp add: range_fill_make)
next
  case (7 ty cls)
  then obtain rs where "map TableCell_toRaw cls = map Inr rs" using all_Inr_map by blast
  then show ?case by (simp add: range_fill_make)
next
  case (8 ty its)
  then obtain rs where "map toRaw its = map Inr rs" using all_Inr_map by blast
  then show ?case by (simp add: range_fill_make)
qed simp_all

section \<open>Flattening never panics\<close>

lemma toRaw_total: "\<exists>r. toRaw e = Inr r"
  by (rule toRaw_total_all)

lemma TableRow_toRaw_total: "\<exists>r. TableRow_toRaw tr = Inr r"
  by (rule toRaw_total_all)

lemma TableCell_toRaw_total: "\<exists>r. TableCell_toRaw tc = Inr r"
  by (rule toRaw_total_all)

lemma flattened_items: "\<exists>rs. map toRaw its = map Inr rs"
  using all_Inr_map [of its toRaw] toRaw_total by blast

lemma flattened_rows: "\<exists>rs. map TableRow_toRaw rws = map Inr rs"
  using all_Inr_map [of rws TableRow_toRaw] TableRow_toRaw_total by blast

lemma flattened_cells: "\<exists>rs. map TableCell_toRaw cls = map Inr rs"
  using all_Inr_map [of cls TableCell_toRaw] TableCell_toRaw_total by blast

lemma Container_toRaw_items:
  "\<exists>items. Container_toRaw c = Inr (RawItems ''Container'' items)
     \<and> map Inr items = map toRaw (Container_Items c)"
proof (cases c)
  case (Container ty sep its)
  obtain rs where rs: "map toRaw its = map Inr rs" using flattened_items by blast
  then have "Container_toRaw c = Inr (RawItems ''Container'' rs)"
    using Container by (simp add: range_fill_make)
  then show ?thesis using rs Container by auto
qed

lemma Table_toRaw_rows:
  "\<exists>rows. Table_toRaw t = Inr (RawTable (Table_Type t) (Table_Columns t) rows)
     \<and> map Inr rows = map TableRow_toRaw (Table_Rows t)"
proof (cases t)
  case (Table ty cols rws hdr)
  obtain rs where rs: "map TableRow_toRaw rws = map Inr rs" using flattened_rows by blast
  then have "Table_toRaw t = Inr (RawTable ty cols rs)"
    using Table by (simp add: range_fill_make)
  then show ?thesis using rs Table by auto
qed

lemma TableRow_toRaw_cells:
  "\<exists>cells. TableRow_toRaw tr = Inr (RawCells (TableRow_Type tr) cells)
     \<and> map Inr cells = map TableCell_toRaw (TableRow_Cells tr)"
proof (cases tr)
  case (TableRow ty cls)
  obtain rs where rs: "map TableCell_toRaw cls = map Inr rs" using flattened_cells by blast
  then have "TableRow_toRaw tr = Inr (RawCells ty rs)"
    using TableRow by (simp add: range_fill_make)
  then show ?thesis using rs TableRow by auto
qed

lemma TableCell_toRaw_items:
  "\<exists>items. TableCell_toRaw tc = Inr (RawItems (TableCell_Type tc) items)
     \<and> map Inr items = map toRaw (TableCell_Items tc)"
proof (cases tc)
  case (TableCell ty its)
  obtain rs where rs: "map toRaw its = map Inr rs" using flattened_items by blast
  then have "TableCell_toRaw tc = Inr (RawItems ty rs)"
    using TableCell by (simp add: range_fill_make)
  then show ?thesis using rs TableCell by auto
qed

section \<open>Serialization and the append helpers\<close>

lemma MarshalJSON_body:
  "\<exists>body. map Inr body = map toRaw (Card_Body c)
     \<and> MarshalJSON marshal c =
         Inr (marshal
           \<lparr>RawCard_Type = Card_Type c, RawCard_Version = Card_Version c,
            RawCard_Body = body, RawCard_Schema = Card_Schema c,
            RawCard_Actions = Card_Actions c, RawCard_MSTeams = Card_MSTeams c\<rparr>)"
proof -
  obtain rs where rs: "map toRaw (Card_Body c) = map Inr rs" using flattened_items by blast
  then show ?thesis by (auto simp: MarshalJSON_def range_fill_make)
qed

lemma Container_Items_WithSeparator:
  "Container_Items (Container_WithSeparator c) = Container_Items c"
  by (cases c) simp

lemma foldl_AddItem:
  "Container_Items (foldl AddItem c els) = Container_Items c @ els"
proof (induction els arbitrary: c)
  case Nil
  then show ?case by simp
next
  case (Cons el els)
  then show ?case by (cases c) simp
qed


lemma build_text_concat:
  "build_text s mentions = s @ concat (map (\<lambda>n. '' <at>'' @ n @ ''</at>'') mentions)"
  by (induction mentions arbitrary: s) (simp_all add: Sprintf_at_def)




section \<open>Memory: frames of the representation\<close>

lemma ref_elems_len: "ref_elems proj h r = Some vs \<Longrightarrow> ref_len r = length vs"
  by (cases r) (auto split: if_splits option.splits)

lemma ref_elems_read:
  "ref_elems proj h r = Some vs \<Longrightarrow> i < length vs \<Longrightarrow> read_at proj (h @ ext) r i = Some (vs ! i)"
  by (cases r) (auto split: if_splits option.splits simp: nth_append)

lemma ref_elems_extend:
  "ref_elems proj h r = Some vs \<Longrightarrow> ref_elems proj (h @ ext) r = Some vs"
  by (cases r) (auto split: if_splits option.splits simp: nth_append)

lemma ref_elems_agree:
  "ref_elems proj h (Ref a off n) = Some vs \<Longrightarrow> length h \<le> length h' \<Longrightarrow> h' ! a = h ! a
   \<Longrightarrow> ref_elems proj h' (Ref a off n) = Some vs"
  by (auto split: if_splits option.splits)

lemma cols_value_extend:
  "cols_value h r = Some cols \<Longrightarrow> cols_value (h @ ext) r = Some cols"
  by (cases r) (auto split: if_splits option.splits simp: nth_append)

lemma cols_value_agree:
  assumes "cols_value h r = Some cols" and "length h \<le> length h'"
    and "\<And>a. a < length h \<Longrightarrow> as_Anys (h ! a) = None \<Longrightarrow> h' ! a = h ! a"
  shows "cols_value h' r = Some cols"
proof (cases r)
  case NilRef
  with assms(1) show ?thesis by simp
next
  case (Ref a off n)
  with assms(1) obtain xs where re: "ref_elems as_TableCols h (Ref a off n) = Some xs"
    and c: "cols = Slice xs"
    by auto
  from re have a: "a < length h" and "as_TableCols (h ! a) \<noteq> None"
    by (auto split: if_splits option.splits)
  then have "as_Anys (h ! a) = None" by (cases "h ! a") simp_all
  with assms(3) a have "h' ! a = h ! a" by simp
  with re assms(2) have "ref_elems as_TableCols h' (Ref a off n) = Some xs"
    by (rule ref_elems_agree)
  then show ?thesis using Ref c by simp
qed

lemma raw_repr_frame:
  "raw_repr lo h v r \<Longrightarrow> length h \<le> length h' \<Longrightarrow>
   (\<And>a. a < length h \<Longrightarrow> lo \<le> a \<or> as_Anys (h ! a) = None \<Longrightarrow> h' ! a = h ! a)
   \<Longrightarrow> raw_repr lo h' v r"
proof (induction lo h v r rule: raw_repr.induct)
  case (4 lo h v ty rs)
  then obtain ty' a off n vs where v: "v = HRawItems ty' (Ref a off n)"
    and t: "ty' = ty" "lo \<le> a"
    and re: "ref_elems as_Anys h (Ref a off n) = Some vs"
    and all: "list_all2 (raw_repr lo h) vs rs"
    by (auto split: hRaw.splits ref.splits option.splits)
  from re have a: "a < length h" by (auto split: if_splits)
  have "h' ! a = h ! a" using "4.prems"(3) [OF a] t by simp
  with re "4.prems"(2) have re': "ref_elems as_Anys h' (Ref a off n) = Some vs"
    by (rule ref_elems_agree)
  have "list_all2 (raw_repr lo h') vs rs"
    using all
  proof (rule list.rel_mono_strong)
    fix x y assume "x \<in> set vs" and "y \<in> set rs" and "raw_repr lo h x y"
    then show "raw_repr lo h' x y"
      using "4.IH" [OF v refl re] "4.prems"(2,3) by blast
  qed
  then show ?case using v t re' by simp
next
  case (5 lo h v ty rs)
  then obtain ty' a off n vs where v: "v = HRawCells ty' (Ref a off n)"
    and t: "ty' = ty" "lo \<le> a"
    and re: "ref_elems as_Anys h (Ref a off n) = Some vs"
    and all: "list_all2 (raw_repr lo h) vs rs"
    by (auto split: hRaw.splits ref.splits option.splits)
  from re have a: "a < length h" by (auto split: if_splits)
  have "h' ! a = h ! a" using "5.prems"(3) [OF a] t by simp
  with re "5.prems"(2) have re': "ref_elems as_Anys h' (Ref a off n) = Some vs"
    by (rule ref_elems_agree)
  have "list_all2 (raw_repr lo h') vs rs"
    using all
  proof (rule list.rel_mono_strong)
    fix x y assume "x \<in> set vs" and "y \<in> set rs" and "raw_repr lo h x y"
    then show "raw_repr lo h' x y"
      using "5.IH" [OF v refl re] "5.prems"(2,3) by blast
  qed
  then show ?case using v t re' by simp
next
  case (6 lo h v ty cols rs)
  then obtain ty' cols' a off n vs where v: "v = HRawTable ty' cols' (Ref a off n)"
    and t: "ty' = ty" "lo \<le> a"
    and cv: "cols_value h cols' = Some cols"
    and re: "ref_elems as_Anys h (Ref a off n) = Some vs"
    and all: "list_all2 (raw_repr lo h) vs rs"
    by (auto split: hRaw.splits ref.splits option.splits)
  from re have a: "a < length h" by (auto split: if_splits)
  have "h' ! a = h ! a" using "6.prems"(3) [OF a] t by simp
  with re "6.prems"(2) have re': "ref_elems as_Anys h' (Ref a off n) = Some vs"
    by (rule ref_elems_agree)
  have cv': "cols_value h' cols' = Some cols"
    using cv "6.prems"(2) by (rule cols_value_agree) (simp add: "6.prems"(3))
  have "list_all2 (raw_repr lo h') vs rs"
    using all
  proof (rule list.rel_mono_strong)
    fix x y assume "x \<in> set vs" and "y \<in> set rs" and "raw_repr lo h x y"
    then show "raw_repr lo h' x y"
      using "6.IH" [OF v refl re] "6.prems"(2,3) by blast
  qed
  then show ?case using v t re' cv' by simp
qed simp_all

lemma raw_repr_lower:
  "raw_repr lo h v r \<Longrightarrow> lo' \<le> lo \<Longrightarrow> raw_repr lo' h v r"
proof (induction lo h v r rule: raw_repr.induct)
  case (4 lo h v ty rs)
  then obtain ty' a off n vs where v: "v = HRawItems ty' (Ref a off n)"
    and t: "ty' = ty" "lo \<le> a"
    and re: "ref_elems as_Anys h (Ref a off n) = Some vs"
    and all: "list_all2 (raw_repr lo h) vs rs"
    by (auto split: hRaw.splits ref.splits option.splits)
  have "list_all2 (raw_repr lo' h) vs rs"
    using all
  proof (rule list.rel_mono_strong)
    fix x y assume "x \<in> set vs" and "y \<in> set rs" and "raw_repr lo h x y"
    then show "raw_repr lo' h x y"
      using "4.IH" [OF v refl re] "4.prems"(2) by blast
  qed
  then show ?case using v t re "4.prems"(2) by simp
next
  case (5 lo h v ty rs)
  then obtain ty' a off n vs where v: "v = HRawCells ty' (Ref a off n)"
    and t: "ty' = ty" "lo \<le> a"
    and re: "ref_elems as_Anys h (Ref a off n) = Some vs"
    and all: "list_all2 (raw_repr lo h) vs rs"
    by (auto split: hRaw.splits ref.splits option.splits)
  have "list_all2 (raw_repr lo' h) vs rs"
    using all
  proof (rule list.rel_mono_strong)
    fix x y assume "x \<in> set vs" and "y \<in> set rs" and "raw_repr lo h x y"
    then show "raw_repr lo' h x y"
      using "5.IH" [OF v refl re] "5.prems"(2) by blast
  qed
  then show ?case using v t re "5.prems"(2) by simp
next
  case (6 lo h v ty cols rs)
  then obtain ty' cols' a off n vs where v: "v = HRawTable ty' cols' (Ref a off n)"
    and t: "ty' = ty" "cols_value h cols' = Some cols" "lo \<le> a"
    and re: "ref_elems as_Anys h (Ref a off n) = Some vs"
    and all: "list_all2 (raw_repr lo h) vs rs"
    by (auto split: hRaw.splits ref.splits option.splits)
  have "list_all2 (raw_repr lo' h) vs rs"
    using all
  proof (rule list.rel_mono_strong)
    fix x y assume "x \<in> set vs" and "y \<in> set rs" and "raw_repr lo h x y"
    then show "raw_repr lo' h x y"
      using "6.IH" [OF v refl re] "6.prems"(2) by blast
  qed
  then show ?case using v t re "6.prems"(2) by simp
qed simp_all

lemma raw_repr_extend:
  assumes "raw_repr lo h v r"
  shows "raw_repr lo (h @ new) v r"
  using assms
proof (rule raw_repr_frame)
  show "length h \<le> length (h @ new)" by simp
  fix a assume "a < length h"
  then show "(h @ new) ! a = h ! a" by (simp add: nth_append)
qed

lemma raw_repr_write:
  assumes "raw_repr (Suc (length pre)) (pre @ Anys x # rest) v r"
  shows "raw_repr (Suc (length pre)) (pre @ Anys y # rest) v r"
  using assms
proof (rule raw_repr_frame)
  show "length (pre @ Anys x # rest) \<le> length (pre @ Anys y # rest)" by simp
  fix a assume "Suc (length pre) \<le> a \<or> as_Anys ((pre @ Anys x # rest) ! a) = None"
  then have "a \<noteq> length pre" by auto
  then show "(pre @ Anys y # rest) ! a = (pre @ Anys x # rest) ! a"
    by (simp add: nth_append nth_Cons split: nat.splits)
qed

lemma raw_repr_fresh_block:
  assumes "list_all2 (raw_repr (Suc (length pre)) (pre @ Anys outs # news)) outs rs"
    and "length outs = n"
  shows "raw_repr (length pre) (pre @ Anys outs # news) (HRawItems ty (Ref (length pre) 0 n)) (RawItems ty rs)"
    and "raw_repr (length pre) (pre @ Anys outs # news) (HRawCells ty (Ref (length pre) 0 n)) (RawCells ty rs)"
    and "cols_value (pre @ Anys outs # news) cref = Some cols \<Longrightarrow>
         raw_repr (length pre) (pre @ Anys outs # news) (HRawTable ty cref (Ref (length pre) 0 n)) (RawTable ty cols rs)"
proof -
  have "list_all2 (raw_repr (length pre) (pre @ Anys outs # news)) outs rs"
    using assms(1) by (rule list.rel_mono_strong) (simp add: raw_repr_lower)
  then show "raw_repr (length pre) (pre @ Anys outs # news) (HRawItems ty (Ref (length pre) 0 n)) (RawItems ty rs)"
    and "raw_repr (length pre) (pre @ Anys outs # news) (HRawCells ty (Ref (length pre) 0 n)) (RawCells ty rs)"
    and "cols_value (pre @ Anys outs # news) cref = Some cols \<Longrightarrow>
         raw_repr (length pre) (pre @ Anys outs # news) (HRawTable ty cref (Ref (length pre) 0 n)) (RawTable ty cols rs)"
    using assms(2) by simp_all
qed

section \<open>Memory: the fill loop\<close>

lemma fill_h_correct:
  fixes f :: "heap \<Rightarrow> 'a \<Rightarrow> (heap \<times> hRaw) result" and g :: "'b \<Rightarrow> panic + Raw"
  assumes src: "ref_elems proj h0 src = Some vs"
    and len: "length vs = length es"
    and fspec: "\<And>j ext. j < length es \<Longrightarrow>
        \<exists>new hr r. f (h0 @ ext) (vs ! j) = Some (Inr (h0 @ ext @ new, hr)) \<and> g (es ! j) = Inr r
          \<and> raw_repr (length (h0 @ ext)) (h0 @ ext @ new) hr r"
  shows "i + m = length es \<Longrightarrow> length outs = i \<Longrightarrow>
    list_all2 (raw_repr (Suc (length (h0 @ ext0)))
       (h0 @ ext0 @ Anys (outs @ replicate m HRawNil) # news)) outs rs \<Longrightarrow>
    map g (take i es) = map Inr rs \<Longrightarrow>
    \<exists>outs' news' rs'.
      fill_h proj f src (Ref (length (h0 @ ext0)) 0 (length es)) m i
        (h0 @ ext0 @ Anys (outs @ replicate m HRawNil) # news)
        = Some (Inr (h0 @ ext0 @ Anys outs' # news'))
      \<and> length outs' = length es
      \<and> list_all2 (raw_repr (Suc (length (h0 @ ext0))) (h0 @ ext0 @ Anys outs' # news')) outs' rs'
      \<and> map g es = map Inr rs'"
proof (induction m arbitrary: i outs news rs)
  case 0
  then show ?case by auto
next
  case (Suc m)
  let ?pre = "h0 @ ext0"
  let ?d = "length ?pre"
  let ?blk = "outs @ replicate (Suc m) HRawNil"
  let ?H = "h0 @ ext0 @ Anys ?blk # news"
  from Suc.prems have i: "i < length es" by simp
  then have iv: "i < length vs" using len by simp
  have rd: "read_at proj ?H src i = Some (vs ! i)"
    using ref_elems_read [OF src iv, of "ext0 @ Anys ?blk # news"] by simp
  from fspec [OF i, of "ext0 @ Anys ?blk # news"]
  obtain new hr r where fr: "f ?H (vs ! i) = Some (Inr (?H @ new, hr))"
    and gr: "g (es ! i) = Inr r"
    and rr: "raw_repr (length ?H) (?H @ new) hr r"
    by auto
  let ?blk' = "(outs @ [hr]) @ replicate m HRawNil"
  let ?H2 = "h0 @ ext0 @ Anys ?blk' # news @ new"
  have upd: "?blk[i := hr] = ?blk'"
    using Suc.prems(2) by (simp add: list_update_append replicate_app_Cons_same)
  have Hn: "?H @ new = ?pre @ Anys ?blk # (news @ new)" by simp
  have wr: "write_any (?H @ new) (Ref ?d 0 (length es)) i hr = Inr ?H2"
  proof -
    have "(?H @ new) ! ?d = Anys ?blk"
      unfolding Hn by (rule nth_append_length)
    moreover have "(?H @ new)[?d := Anys ?blk'] = ?H2"
      unfolding Hn by (simp add: list_update_append)
    moreover have "i < length ?blk" using Suc.prems(2) by simp
    ultimately show ?thesis using i upd by simp
  qed
  have step: "fill_h proj f src (Ref ?d 0 (length es)) (Suc m) i ?H
      = fill_h proj f src (Ref ?d 0 (length es)) m (Suc i) ?H2"
    using rd fr wr by simp
  have H2: "?H2 = ?pre @ Anys ?blk' # (news @ new)" by simp
  have old: "list_all2 (raw_repr (Suc ?d) ?H2) outs rs"
    using Suc.prems(3)
  proof (rule list.rel_mono_strong)
    fix x y assume "raw_repr (Suc ?d) ?H x y"
    then have "raw_repr (Suc ?d) (?H @ new) x y"
      by (rule raw_repr_extend)
    then have "raw_repr (Suc ?d) (?pre @ Anys ?blk # (news @ new)) x y"
      unfolding Hn .
    then have "raw_repr (Suc ?d) (?pre @ Anys ?blk' # (news @ new)) x y"
      by (rule raw_repr_write)
    then show "raw_repr (Suc ?d) ?H2 x y" unfolding H2 .
  qed
  have "raw_repr (Suc ?d) (?H @ new) hr r"
    using rr by (rule raw_repr_lower) simp
  then have "raw_repr (Suc ?d) (?pre @ Anys ?blk # (news @ new)) hr r"
    unfolding Hn .
  then have "raw_repr (Suc ?d) (?pre @ Anys ?blk' # (news @ new)) hr r"
    by (rule raw_repr_write)
  then have new: "raw_repr (Suc ?d) ?H2 hr r" unfolding H2 .
  have all: "list_all2 (raw_repr (Suc ?d) ?H2) (outs @ [hr]) (rs @ [r])"
    using old new by (simp add: list_all2_appendI)
  have tk: "map g (take (Suc i) es) = map Inr (rs @ [r])"
    using Suc.prems(4) gr i by (simp add: take_Suc_conv_app_nth)
  have "\<exists>outs' news' rs'.
      fill_h proj f src (Ref ?d 0 (length es)) m (Suc i)
        (h0 @ ext0 @ Anys ((outs @ [hr]) @ replicate m HRawNil) # (news @ new))
        = Some (Inr (h0 @ ext0 @ Anys outs' # news'))
      \<and> length outs' = length es
      \<and> list_all2 (raw_repr (Suc ?d) (h0 @ ext0 @ Anys outs' # news')) outs' rs'
      \<and> map g es = map Inr rs'"
  proof (rule Suc.IH)
    show "Suc i + m = length es" using Suc.prems(1) by simp
    show "length (outs @ [hr]) = Suc i" using Suc.prems(2) by simp
    show "list_all2 (raw_repr (Suc ?d)
        (h0 @ ext0 @ Anys ((outs @ [hr]) @ replicate m HRawNil) # (news @ new))) (outs @ [hr]) (rs @ [r])"
      using all by simp
    show "map g (take (Suc i) es) = map Inr (rs @ [r])" by (rule tk)
  qed
  then show ?case using step by simp
qed

lemma flatten_slice_correct:
  fixes f :: "heap \<Rightarrow> 'a \<Rightarrow> (heap \<times> hRaw) result" and g :: "'b \<Rightarrow> panic + Raw"
  assumes src: "ref_elems proj h0 src = Some vs"
    and len: "length vs = length es"
    and fspec: "\<And>j ext. j < length es \<Longrightarrow>
        \<exists>new hr r. f (h0 @ ext) (vs ! j) = Some (Inr (h0 @ ext @ new, hr)) \<and> g (es ! j) = Inr r
          \<and> raw_repr (length (h0 @ ext)) (h0 @ ext @ new) hr r"
  shows "\<exists>outs news rs.
      flatten_slice proj f (h0 @ ext0) src
        = Some (Inr (h0 @ ext0 @ Anys outs # news, Ref (length (h0 @ ext0)) 0 (length es)))
      \<and> length outs = length es
      \<and> list_all2 (raw_repr (Suc (length (h0 @ ext0))) (h0 @ ext0 @ Anys outs # news)) outs rs
      \<and> map g es = map Inr rs"
proof -
  have n: "ref_len src = length es"
    using ref_elems_len [OF src] len by simp
  have "\<exists>outs' news' rs'.
      fill_h proj f src (Ref (length (h0 @ ext0)) 0 (length es)) (length es) 0
        (h0 @ ext0 @ Anys ([] @ replicate (length es) HRawNil) # [])
        = Some (Inr (h0 @ ext0 @ Anys outs' # news'))
      \<and> length outs' = length es
      \<and> list_all2 (raw_repr (Suc (length (h0 @ ext0))) (h0 @ ext0 @ Anys outs' # news')) outs' rs'
      \<and> map g es = map Inr rs'"
  proof (rule fill_h_correct [OF src len, where rs = "[]"])
    show "\<And>j ext. j < length es \<Longrightarrow>
        \<exists>new hr r. f (h0 @ ext) (vs ! j) = Some (Inr (h0 @ ext @ new, hr)) \<and> g (es ! j) = Inr r
          \<and> raw_repr (length (h0 @ ext)) (h0 @ ext @ new) hr r"
      by (rule fspec)
  qed simp_all
  then obtain outs news rs where
    "fill_h proj f src (Ref (length (h0 @ ext0)) 0 (length es)) (length es) 0
        (h0 @ ext0 @ [Anys (replicate (length es) HRawNil)])
        = Some (Inr (h0 @ ext0 @ Anys outs # news))"
    and rest: "length outs = length es"
      "list_all2 (raw_repr (Suc (length (h0 @ ext0))) (h0 @ ext0 @ Anys outs # news)) outs rs"
      "map g es = map Inr rs"
    by auto
  then have "flatten_slice proj f (h0 @ ext0) src
        = Some (Inr (h0 @ ext0 @ Anys outs # news, Ref (length (h0 @ ext0)) 0 (length es)))"
    by (simp add: flatten_slice_def make_h_def n)
  with rest show ?thesis by blast
qed

section \<open>Memory: flattening refines the flattening of trees\<close>

lemma size_Container_item: "x \<in> set its \<Longrightarrow> size x < size (Container ty sep its)"
  by (simp add: less_Suc_eq_le size_list_estimation')

lemma size_Table_row: "x \<in> set rws \<Longrightarrow> size x < size (Table ty cols rws hdr)"
  by (simp add: less_Suc_eq_le size_list_estimation')

lemma size_TableRow_cell: "x \<in> set cls \<Longrightarrow> size x < size (TableRow ty cls)"
  by (simp add: less_Suc_eq_le size_list_estimation')

lemma size_TableCell_item: "x \<in> set its \<Longrightarrow> size x < size (TableCell ty its)"
  by (simp add: less_Suc_eq_le size_list_estimation')

lemma toRaw_h_refines_all:
  "\<And>h0 ext v k. repr h0 v e \<Longrightarrow> size e < k \<Longrightarrow>
     \<exists>new hr r. toRaw_h k (h0 @ ext) v = Some (Inr (h0 @ ext @ new, hr)) \<and> toRaw e = Inr r
       \<and> raw_repr (length (h0 @ ext)) (h0 @ ext @ new) hr r"
  "\<And>h0 ext v k. Container_repr h0 v c \<Longrightarrow> size c < k \<Longrightarrow>
     \<exists>new hr r. toRaw_h k (h0 @ ext) v = Some (Inr (h0 @ ext @ new, hr)) \<and> Container_toRaw c = Inr r
       \<and> raw_repr (length (h0 @ ext)) (h0 @ ext @ new) hr r"
  "\<And>h0 ext v k. Table_repr h0 v t \<Longrightarrow> size t < k \<Longrightarrow>
     \<exists>new hr r. toRaw_h k (h0 @ ext) v = Some (Inr (h0 @ ext @ new, hr)) \<and> Table_toRaw t = Inr r
       \<and> raw_repr (length (h0 @ ext)) (h0 @ ext @ new) hr r"
  "\<And>h0 ext v k. TableRow_repr h0 v tr \<Longrightarrow> size tr < k \<Longrightarrow>
     \<exists>new hr r. TableRow_toRaw_h k (h0 @ ext) v = Some (Inr (h0 @ ext @ new, hr)) \<and> TableRow_toRaw tr = Inr r
       \<and> raw_repr (length (h0 @ ext)) (h0 @ ext @ new) hr r"
  "\<And>h0 ext v k. TableCell_repr h0 v tc \<Longrightarrow> size tc < k \<Longrightarrow>
     \<exists>new hr r. TableCell_toRaw_h k (h0 @ ext) v = Some (Inr (h0 @ ext @ new, hr)) \<and> TableCell_toRaw tc = Inr r
       \<and> raw_repr (length (h0 @ ext)) (h0 @ ext @ new) hr r"
proof (induction e and c and t and tr and tc
    rule: toRaw_Container_toRaw_Table_toRaw_TableRow_toRaw_TableCell_toRaw.induct)
  case (1 t)
  then obtain k' where "k = Suc k'" by (cases k) auto
  with 1 have "toRaw_h k (h0 @ ext) v = Some (Inr (h0 @ ext @ [], HRawTextBlock t))"
    by simp
  then show ?case by fastforce
next
  case (2 c)
  from "2.prems" have "Container_repr h0 v c" and "size c < k" by simp_all
  from "2.IH" [OF this] show ?case by simp
next
  case (3 fs)
  then obtain k' where "k = Suc k'" by (cases k) auto
  with 3 have "toRaw_h k (h0 @ ext) v = Some (Inr (h0 @ ext @ [], HRawFactSet fs))"
    by simp
  then show ?case by fastforce
next
  case (4 t)
  from "4.prems" have "Table_repr h0 v t" and "size t < k" by simp_all
  from "4.IH" [OF this] show ?case by simp
next
  case (5 ty sep its)
  from "5.prems"(1) obtain src vs where v: "v = HContainer ty sep src"
    and src: "ref_elems as_Elements h0 src = Some vs"
    and all: "list_all2 (repr h0) vs its"
    by (auto split: hElement.splits option.splits)
  from "5.prems"(2) obtain k' where k: "k = Suc k'" and sz: "size (Container ty sep its) \<le> k'"
    by (cases k) auto
  have len: "length vs = length its" using all by (rule list_all2_lengthD)
  have "\<exists>outs news rs.
      flatten_slice as_Elements (toRaw_h k') (h0 @ ext) src
        = Some (Inr (h0 @ ext @ Anys outs # news, Ref (length (h0 @ ext)) 0 (length its)))
      \<and> length outs = length its
      \<and> list_all2 (raw_repr (Suc (length (h0 @ ext))) (h0 @ ext @ Anys outs # news)) outs rs
      \<and> map toRaw its = map Inr rs"
  proof (rule flatten_slice_correct [OF src len])
    fix j ext' assume j: "j < length its"
    then have mem: "its ! j \<in> set its" by simp
    have "repr h0 (vs ! j) (its ! j)" using all j by (rule list_all2_nthD2)
    moreover have "size (its ! j) < k'"
      using size_Container_item [OF mem, of ty sep] sz by simp
    ultimately show "\<exists>new hr r. toRaw_h k' (h0 @ ext') (vs ! j) = Some (Inr (h0 @ ext' @ new, hr))
        \<and> toRaw (its ! j) = Inr r \<and> raw_repr (length (h0 @ ext')) (h0 @ ext' @ new) hr r"
      by (rule "5.IH" [OF mem])
  qed
  then obtain outs news rs where
    fl: "flatten_slice as_Elements (toRaw_h k') (h0 @ ext) src
        = Some (Inr (h0 @ ext @ Anys outs # news, Ref (length (h0 @ ext)) 0 (length its)))"
    and lo: "length outs = length its"
    and rr: "list_all2 (raw_repr (Suc (length (h0 @ ext))) (h0 @ ext @ Anys outs # news)) outs rs"
    and mp: "map toRaw its = map Inr rs"
    by blast
  have "raw_repr (length (h0 @ ext)) ((h0 @ ext) @ Anys outs # news)
      (HRawItems ''Container'' (Ref (length (h0 @ ext)) 0 (length its))) (RawItems ''Container'' rs)"
    by (rule raw_repr_fresh_block(1)) (use rr lo in simp_all)
  moreover have "toRaw_h k (h0 @ ext) v
      = Some (Inr (h0 @ ext @ (Anys outs # news), HRawItems ''Container'' (Ref (length (h0 @ ext)) 0 (length its))))"
    using fl k v by simp
  moreover have "Container_toRaw (Container ty sep its) = Inr (RawItems ''Container'' rs)"
    using mp by (simp add: range_fill_make)
  ultimately show ?case by (metis append_assoc)
next
  case (6 ty cols rws hdr)
  from "6.prems"(1) obtain cref src vs where v: "v = HTable ty cref src hdr"
    and cv: "cols_value h0 cref = Some cols"
    and src: "ref_elems as_TableRows h0 src = Some vs"
    and all: "list_all2 (TableRow_repr h0) vs rws"
    by (auto split: hElement.splits option.splits)
  from "6.prems"(2) obtain k' where k: "k = Suc k'" and sz: "size (Table ty cols rws hdr) \<le> k'"
    by (cases k) auto
  have len: "length vs = length rws" using all by (rule list_all2_lengthD)
  have "\<exists>outs news rs.
      flatten_slice as_TableRows (TableRow_toRaw_h k') (h0 @ ext) src
        = Some (Inr (h0 @ ext @ Anys outs # news, Ref (length (h0 @ ext)) 0 (length rws)))
      \<and> length outs = length rws
      \<and> list_all2 (raw_repr (Suc (length (h0 @ ext))) (h0 @ ext @ Anys outs # news)) outs rs
      \<and> map TableRow_toRaw rws = map Inr rs"
  proof (rule flatten_slice_correct [OF src len])
    fix j ext' assume j: "j < length rws"
    then have mem: "rws ! j \<in> set rws" by simp
    have "TableRow_repr h0 (vs ! j) (rws ! j)" using all j by (rule list_all2_nthD2)
    moreover have "size (rws ! j) < k'"
      using size_Table_row [OF mem, of ty cols hdr] sz by simp
    ultimately show "\<exists>new hr r. TableRow_toRaw_h k' (h0 @ ext') (vs ! j) = Some (Inr (h0 @ ext' @ new, hr))
        \<and> TableRow_toRaw (rws ! j) = Inr r \<and> raw_repr (length (h0 @ ext')) (h0 @ ext' @ new) hr r"
      by (rule "6.IH" [OF mem])
  qed
  then obtain outs news rs where
    fl: "flatten_slice as_TableRows (TableRow_toRaw_h k') (h0 @ ext) src
        = Some (Inr (h0 @ ext @ Anys outs # news, Ref (length (h0 @ ext)) 0 (length rws)))"
    and lo: "length outs = length rws"
    and rr: "list_all2 (raw_repr (Suc (length (h0 @ ext))) (h0 @ ext @ Anys outs # news)) outs rs"
    and mp: "map TableRow_toRaw rws = map Inr rs"
    by blast
  have "cols_value (h0 @ (ext @ Anys outs # news)) cref = Some cols"
    using cv by (rule cols_value_extend)
  then have cv': "cols_value ((h0 @ ext) @ Anys outs # news) cref = Some cols" by simp
  have "raw_repr (length (h0 @ ext)) ((h0 @ ext) @ Anys outs # news)
      (HRawTable ty cref (Ref (length (h0 @ ext)) 0 (length rws))) (RawTable ty cols rs)"
    by (rule raw_repr_fresh_block(3) [OF _ _ cv']) (use rr lo in simp_all)
  moreover have "toRaw_h k (h0 @ ext) v
      = Some (Inr (h0 @ ext @ (Anys outs # news), HRawTable ty cref (Ref (length (h0 @ ext)) 0 (length rws))))"
    using fl k v by simp
  moreover have "Table_toRaw (Table ty cols rws hdr) = Inr (RawTable ty cols rs)"
    using mp by (simp add: range_fill_make)
  ultimately show ?case by (metis append_assoc)
next
  case (7 ty cls)
  from "7.prems"(1) obtain src vs where v: "v = HTableRow ty src"
    and src: "ref_elems as_TableCells h0 src = Some vs"
    and all: "list_all2 (TableCell_repr h0) vs cls"
    by (cases v) (auto split: option.splits)
  from "7.prems"(2) obtain k' where k: "k = Suc k'" and sz: "size (TableRow ty cls) \<le> k'"
    by (cases k) auto
  have len: "length vs = length cls" using all by (rule list_all2_lengthD)
  have "\<exists>outs news rs.
      flatten_slice as_TableCells (TableCell_toRaw_h k') (h0 @ ext) src
        = Some (Inr (h0 @ ext @ Anys outs # news, Ref (length (h0 @ ext)) 0 (length cls)))
      \<and> length outs = length cls
      \<and> list_all2 (raw_repr (Suc (length (h0 @ ext))) (h0 @ ext @ Anys outs # news)) outs rs
      \<and> map TableCell_toRaw cls = map Inr rs"
  proof (rule flatten_slice_correct [OF src len])
    fix j ext' assume j: "j < length cls"
    then have mem: "cls ! j \<in> set cls" by simp
    have "TableCell_repr h0 (vs ! j) (cls ! j)" using all j by (rule list_all2_nthD2)
    moreover have "size (cls ! j) < k'"
      using size_TableRow_cell [OF mem, of ty] sz by simp
    ultimately show "\<exists>new hr r. TableCell_toRaw_h k' (h0 @ ext') (vs ! j) = Some (Inr (h0 @ ext' @ new, hr))
        \<and> TableCell_toRaw (cls ! j) = Inr r \<and> raw_repr (length (h0 @ ext')) (h0 @ ext' @ new) hr r"
      by (rule "7.IH" [OF mem])
  qed
  then obtain outs news rs where
    fl: "flatten_slice as_TableCells (TableCell_toRaw_h k') (h0 @ ext) src
        = Some (Inr (h0 @ ext @ Anys outs # news, Ref (length (h0 @ ext)) 0 (length cls)))"
    and lo: "length outs = length cls"
    and rr: "list_all2 (raw_repr (Suc (length (h0 @ ext))) (h0 @ ext @ Anys outs # news)) outs rs"
    and mp: "map TableCell_toRaw cls = map Inr rs"
    by blast
  have "raw_repr (length (h0 @ ext)) ((h0 @ ext) @ Anys outs # news)
      (HRawCells ty (Ref (length (h0 @ ext)) 0 (length cls))) (RawCells ty rs)"
    by (rule raw_repr_fresh_block(2)) (use rr lo in simp_all)
  moreover have "TableRow_toRaw_h k (h0 @ ext) v
      = Some (Inr (h0 @ ext @ (Anys outs # news), HRawCells ty (Ref (length (h0 @ ext)) 0 (length cls))))"
    using fl k v by simp
  moreover have "TableRow_toRaw (TableRow ty cls) = Inr (RawCells ty rs)"
    using mp by (simp add: range_fill_make)
  ultimately show ?case by (metis append_assoc)
next
  case (8 ty its)
  from "8.prems"(1) obtain src vs where v: "v = HTableCell ty src"
    and src: "ref_elems as_Elements h0 src = Some vs"
    and all: "list_all2 (repr h0) vs its"
    by (cases v) (auto split: option.splits)
  from "8.prems"(2) obtain k' where k: "k = Suc k'" and sz: "size (TableCell ty its) \<le> k'"
    by (cases k) auto
  have len: "length vs = length its" using all by (rule list_all2_lengthD)
  have "\<exists>outs news rs.
      flatten_slice as_Elements (toRaw_h k') (h0 @ ext) src
        = Some (Inr (h0 @ ext @ Anys outs # news, Ref (length (h0 @ ext)) 0 (length its)))
      \<and> length outs = length its
      \<and> list_all2 (raw_repr (Suc (length (h0 @ ext))) (h0 @ ext @ Anys outs # news)) outs rs
      \<and> map toRaw its = map Inr rs"
  proof (rule flatten_slice_correct [OF src len])
    fix j ext' assume j: "j < length its"
    then have mem: "its ! j \<in> set its" by simp
    have "repr h0 (vs ! j) (its ! j)" using all j by (rule list_all2_nthD2)
    moreover have "size (its ! j) < k'"
      using size_TableCell_item [OF mem, of ty] sz by simp
    ultimately show "\<exists>new hr r. toRaw_h k' (h0 @ ext') (vs ! j) = Some (Inr (h0 @ ext' @ new, hr))
        \<and> toRaw (its ! j) = Inr r \<and> raw_repr (length (h0 @ ext')) (h0 @ ext' @ new) hr r"
      by (rule "8.IH" [OF mem])
  qed
  then obtain outs news rs where
    fl: "flatten_slice as_Elements (toRaw_h k') (h0 @ ext) src
        = Some (Inr (h0 @ ext @ Anys outs # news, Ref (length (h0 @ ext)) 0 (length its)))"
    and lo: "length outs = length its"
    and rr: "list_all2 (raw_repr (Suc (length (h0 @ ext))) (h0 @ ext @ Anys outs # news)) outs rs"
    and mp: "map toRaw its = map Inr rs"
    by blast
  have "raw_repr (length (h0 @ ext)) ((h0 @ ext) @ Anys outs # news)
      (HRawItems ty (Ref (length (h0 @ ext)) 0 (length its))) (RawItems ty rs)"
    by (rule raw_repr_fresh_block(1)) (use rr lo in simp_all)
  moreover have "TableCell_toRaw_h k (h0 @ ext) v
      = Some (Inr (h0 @ ext @ (Anys outs # news), HRawItems ty (Ref (length (h0 @ ext)) 0 (length its))))"
    using fl k v by simp
  moreover have "TableCell_toRaw (TableCell ty its) = Inr (RawItems ty rs)"
    using mp by (simp add: range_fill_make)
  ultimately show ?case by (metis append_assoc)
qed

lemma repr_extend_all:
  "\<And>v. repr h v e \<Longrightarrow> repr (h @ ext) v e"
  "\<And>v. Container_repr h v c \<Longrightarrow> Container_repr (h @ ext) v c"
  "\<And>v. Table_repr h v t \<Longrightarrow> Table_repr (h @ ext) v t"
  "\<And>v. TableRow_repr h v tr \<Longrightarrow> TableRow_repr (h @ ext) v tr"
  "\<And>v. TableCell_repr h v tc \<Longrightarrow> TableCell_repr (h @ ext) v tc"
proof (induction e and c and t and tr and tc
    rule: toRaw_Container_toRaw_Table_toRaw_TableRow_toRaw_TableCell_toRaw.induct)
  case (5 ty sep its)
  from "5.prems" obtain src vs where v: "v = HContainer ty sep src"
    and src: "ref_elems as_Elements h src = Some vs"
    and all: "list_all2 (repr h) vs its"
    by (auto split: hElement.splits option.splits)
  have "list_all2 (repr (h @ ext)) vs its"
    using all by (rule list.rel_mono_strong) (use "5.IH" in blast)
  then show ?case using v ref_elems_extend [OF src, of ext] by simp
next
  case (6 ty cols rws hdr)
  from "6.prems" obtain cref src vs where v: "v = HTable ty cref src hdr"
    and cv: "cols_value h cref = Some cols"
    and src: "ref_elems as_TableRows h src = Some vs"
    and all: "list_all2 (TableRow_repr h) vs rws"
    by (auto split: hElement.splits option.splits)
  have "list_all2 (TableRow_repr (h @ ext)) vs rws"
    using all by (rule list.rel_mono_strong) (use "6.IH" in blast)
  then show ?case
    using v ref_elems_extend [OF src, of ext] cols_value_extend [OF cv, of ext] by simp
next
  case (7 ty cls)
  from "7.prems" obtain src vs where v: "v = HTableRow ty src"
    and src: "ref_elems as_TableCells h src = Some vs"
    and all: "list_all2 (TableCell_repr h) vs cls"
    by (cases v) (auto split: option.splits)
  have "list_all2 (TableCell_repr (h @ ext)) vs cls"
    using all by (rule list.rel_mono_strong) (use "7.IH" in blast)
  then show ?case using v ref_elems_extend [OF src, of ext] by simp
next
  case (8 ty its)
  from "8.prems" obtain src vs where v: "v = HTableCell ty src"
    and src: "ref_elems as_Elements h src = Some vs"
    and all: "list_all2 (repr h) vs its"
    by (cases v) (auto split: option.splits)
  have "list_all2 (repr (h @ ext)) vs its"
    using all by (rule list.rel_mono_strong) (use "8.IH" in blast)
  then show ?case using v ref_elems_extend [OF src, of ext] by simp
qed simp_all

lemma repr_extend: "repr h v e \<Longrightarrow> repr (h @ ext) v e"
  by (rule repr_extend_all)

lemma toRaw_h_refines:
  "repr h0 v e \<Longrightarrow> size e < k \<Longrightarrow>
     \<exists>new hr r. toRaw_h k (h0 @ ext) v = Some (Inr (h0 @ ext @ new, hr)) \<and> toRaw e = Inr r
       \<and> raw_repr (length (h0 @ ext)) (h0 @ ext @ new) hr r"
  by (rule toRaw_h_refines_all)

lemma Card_repr_extend: "Card_repr h hc c \<Longrightarrow> Card_repr (h @ ext) hc c"
proof -
  assume a: "Card_repr h hc c"
  then obtain vs where src: "ref_elems as_Elements h (hCard_Body hc) = Some vs"
    and all: "list_all2 (repr h) vs (Card_Body c)"
    by (auto simp: Card_repr_def split: option.splits)
  have "list_all2 (repr (h @ ext)) vs (Card_Body c)"
    using all by (rule list.rel_mono_strong) (rule repr_extend)
  then show ?thesis
    using a ref_elems_extend [OF src, of ext] by (simp add: Card_repr_def)
qed

lemma MarshalJSON_h_refines:
  assumes cr: "Card_repr h hc c"
    and fuel: "size_list size (Card_Body c) < k"
  shows "\<exists>outs news body.
      MarshalJSON_h marshal k h hc =
        Some (Inr (h @ Anys outs # news,
          marshal (h @ Anys outs # news)
            \<lparr>hRawCard_Type = Card_Type c, hRawCard_Version = Card_Version c,
             hRawCard_Body = Ref (length h) 0 (length (Card_Body c)),
             hRawCard_Schema = Card_Schema c,
             hRawCard_Actions = Card_Actions c, hRawCard_MSTeams = Card_MSTeams c\<rparr>))
      \<and> length outs = length (Card_Body c)
      \<and> list_all2 (raw_repr (length h) (h @ Anys outs # news)) outs body
      \<and> map toRaw (Card_Body c) = map Inr body"
proof -
  from cr obtain vs where src: "ref_elems as_Elements h (hCard_Body hc) = Some vs"
    and all: "list_all2 (repr h) vs (Card_Body c)"
    by (auto simp: Card_repr_def split: option.splits)
  have len: "length vs = length (Card_Body c)" using all by (rule list_all2_lengthD)
  have "\<exists>outs news rs.
      flatten_slice as_Elements (toRaw_h k) (h @ []) (hCard_Body hc)
        = Some (Inr (h @ [] @ Anys outs # news, Ref (length (h @ [])) 0 (length (Card_Body c))))
      \<and> length outs = length (Card_Body c)
      \<and> list_all2 (raw_repr (Suc (length (h @ []))) (h @ [] @ Anys outs # news)) outs rs
      \<and> map toRaw (Card_Body c) = map Inr rs"
  proof (rule flatten_slice_correct [OF src len])
    fix j ext' assume j: "j < length (Card_Body c)"
    then have mem: "Card_Body c ! j \<in> set (Card_Body c)" by simp
    have "repr h (vs ! j) (Card_Body c ! j)" using all j by (rule list_all2_nthD2)
    moreover have "size (Card_Body c ! j) < k"
      using size_list_estimation' [OF mem order_refl, of size] fuel by simp
    ultimately show "\<exists>new hr r. toRaw_h k (h @ ext') (vs ! j) = Some (Inr (h @ ext' @ new, hr))
        \<and> toRaw (Card_Body c ! j) = Inr r \<and> raw_repr (length (h @ ext')) (h @ ext' @ new) hr r"
      by (rule toRaw_h_refines)
  qed
  then obtain outs news rs where
    fl: "flatten_slice as_Elements (toRaw_h k) h (hCard_Body hc)
        = Some (Inr (h @ Anys outs # news, Ref (length h) 0 (length (Card_Body c))))"
    and lo: "length outs = length (Card_Body c)"
    and rr: "list_all2 (raw_repr (Suc (length h)) (h @ Anys outs # news)) outs rs"
    and mp: "map toRaw (Card_Body c) = map Inr rs"
    by auto
  have "list_all2 (raw_repr (length h) (h @ Anys outs # news)) outs rs"
    using rr by (rule list.rel_mono_strong) (simp add: raw_repr_lower)
  moreover have "MarshalJSON_h marshal k h hc =
        Some (Inr (h @ Anys outs # news,
          marshal (h @ Anys outs # news)
            \<lparr>hRawCard_Type = Card_Type c, hRawCard_Version = Card_Version c,
             hRawCard_Body = Ref (length h) 0 (length (Card_Body c)),
             hRawCard_Schema = Card_Schema c,
             hRawCard_Actions = Card_Actions c, hRawCard_MSTeams = Card_MSTeams c\<rparr>))"
    using fl cr by (simp add: MarshalJSON_h_def Card_repr_def)
  ultimately show ?thesis using lo mp by blast
qed

section \<open>Memory: a call that returns has only added arrays\<close>

lemma extends_refl: "extends h h"
  by (simp add: extends_def)

lemma extends_trans: "extends h1 h2 \<Longrightarrow> extends h2 h3 \<Longrightarrow> extends h1 h3"
proof -
  assume a: "extends h1 h2" and b: "extends h2 h3"
  from a b have len: "length h1 \<le> length h2" "length h2 \<le> length h3"
    by (simp_all add: extends_def)
  from a have "h1 = take (length h1) h2" by (simp add: extends_def)
  also from b have "h2 = take (length h2) h3" by (simp add: extends_def)
  also have "take (length h1) (take (length h2) h3) = take (length h1) h3"
    using len by (simp add: min_def)
  finally have "take (length h1) h3 = h1" by simp
  then show ?thesis using len by (simp add: extends_def)
qed

lemma extends_append: "extends h (h @ new)"
  by (simp add: extends_def)

lemma extends_write:
  assumes "write_any h dst i v = Inr h'" and "dst = Ref a off n" and "length h0 \<le> a"
    and "extends h0 h"
  shows "extends h0 h'"
proof -
  from assms(1,2) obtain xs where h': "h' = h[a := Anys (xs[off + i := v])]"
    by (auto split: if_splits option.splits)
  have "take (length h0) h' = take (length h0) h"
    unfolding h' using assms(3) by simp
  then show ?thesis using assms(4) h' by (simp add: extends_def)
qed

lemma fill_h_extends:
  assumes f: "\<And>H el H' r. f H el = Some (Inr (H', r)) \<Longrightarrow> extends H H'"
    and a: "length h0 \<le> a"
  shows "fill_h proj f src (Ref a off n) m i h = Some (Inr h') \<Longrightarrow> extends h0 h \<Longrightarrow> extends h0 h'"
proof (induction m arbitrary: i h)
  case 0
  then show ?case by simp
next
  case (Suc m)
  from Suc.prems(1) obtain el h1 r h2 where
    "f h el = Some (Inr (h1, r))" and w: "write_any h1 (Ref a off n) i r = Inr h2"
    and rest: "fill_h proj f src (Ref a off n) m (Suc i) h2 = Some (Inr h')"
    by (auto simp del: write_any.simps split: option.splits sum.splits prod.splits)
  then have "extends h h1" using f by blast
  with Suc.prems(2) have "extends h0 h1" by (rule extends_trans)
  with w a have "extends h0 h2" by (rule extends_write [OF _ refl])
  with rest show ?case by (rule Suc.IH)
qed

lemma flatten_slice_extends:
  assumes f: "\<And>H el H' r. f H el = Some (Inr (H', r)) \<Longrightarrow> extends H H'"
    and fl: "flatten_slice proj f h src = Some (Inr (h', dst))"
  shows "extends h h'"
proof -
  from fl have run: "fill_h proj f src (Ref (length h) 0 (ref_len src)) (ref_len src) 0
      (h @ [Anys (replicate (ref_len src) HRawNil)]) = Some (Inr h')"
    by (auto simp: flatten_slice_def make_h_def split: option.splits sum.splits)
  show ?thesis
  proof (rule fill_h_extends)
    show "\<And>H el H' r. f H el = Some (Inr (H', r)) \<Longrightarrow> extends H H'" by (rule f)
    show "fill_h proj f src (Ref (length h) 0 (ref_len src)) (ref_len src) 0
      (h @ [Anys (replicate (ref_len src) HRawNil)]) = Some (Inr h')" by (rule run)
    show "length h \<le> length h" by simp
    show "extends h (h @ [Anys (replicate (ref_len src) HRawNil)])" by (rule extends_append)
  qed
qed

lemma toRaw_h_extends_all:
  "(\<forall>h v h' r. toRaw_h k h v = Some (Inr (h', r)) \<longrightarrow> extends h h')
   \<and> (\<forall>h v h' r. TableRow_toRaw_h k h v = Some (Inr (h', r)) \<longrightarrow> extends h h')
   \<and> (\<forall>h v h' r. TableCell_toRaw_h k h v = Some (Inr (h', r)) \<longrightarrow> extends h h')"
proof (induction k)
  case 0
  show ?case by simp
next
  case (Suc k)
  have e: "\<And>H el H' r. toRaw_h k H el = Some (Inr (H', r)) \<Longrightarrow> extends H H'"
    and c: "\<And>H el H' r. TableCell_toRaw_h k H el = Some (Inr (H', r)) \<Longrightarrow> extends H H'"
    and w: "\<And>H el H' r. TableRow_toRaw_h k H el = Some (Inr (H', r)) \<Longrightarrow> extends H H'"
    using Suc by blast+
  have "extends h h'" if "toRaw_h (Suc k) h v = Some (Inr (h', r))" for h v h' r
  proof (cases v)
    case (HContainer ty sep its)
    with that obtain dst where "flatten_slice as_Elements (toRaw_h k) h its = Some (Inr (h', dst))"
      by (auto split: option.splits sum.splits)
    with e show ?thesis by (rule flatten_slice_extends)
  next
    case (HTable ty cols rws hdr)
    with that obtain dst where "flatten_slice as_TableRows (TableRow_toRaw_h k) h rws = Some (Inr (h', dst))"
      by (auto split: option.splits sum.splits)
    with w show ?thesis by (rule flatten_slice_extends)
  qed (use that in \<open>auto simp: extends_refl\<close>)
  moreover have "extends h h'" if "TableRow_toRaw_h (Suc k) h v = Some (Inr (h', r))" for h v h' r
  proof (cases v)
    case (HTableRow ty cls)
    with that obtain dst where "flatten_slice as_TableCells (TableCell_toRaw_h k) h cls = Some (Inr (h', dst))"
      by (auto split: option.splits sum.splits)
    with c show ?thesis by (rule flatten_slice_extends)
  qed
  moreover have "extends h h'" if "TableCell_toRaw_h (Suc k) h v = Some (Inr (h', r))" for h v h' r
  proof (cases v)
    case (HTableCell ty its)
    with that obtain dst where "flatten_slice as_Elements (toRaw_h k) h its = Some (Inr (h', dst))"
      by (auto split: option.splits sum.splits)
    with e show ?thesis by (rule flatten_slice_extends)
  qed
  ultimately show ?case by blast
qed

lemma toRaw_h_extends: "toRaw_h k h v = Some (Inr (h', r)) \<Longrightarrow> extends h h'"
  using toRaw_h_extends_all by blast

lemma MarshalJSON_h_extends:
  "MarshalJSON_h marshal k h c = Some (Inr (h', res)) \<Longrightarrow> extends h h'"
proof -
  assume "MarshalJSON_h marshal k h c = Some (Inr (h', res))"
  then obtain dst where "flatten_slice as_Elements (toRaw_h k) h (hCard_Body c) = Some (Inr (h', dst))"
    by (auto simp: MarshalJSON_h_def split: option.splits sum.splits)
  show ?thesis
  proof (rule flatten_slice_extends)
    show "\<And>H el H' r. toRaw_h k H el = Some (Inr (H', r)) \<Longrightarrow> extends H H'"
      by (rule toRaw_h_extends)
    show "flatten_slice as_Elements (toRaw_h k) h (hCard_Body c) = Some (Inr (h', dst))"
      by fact
  qed
qed

section \<open>Memory: examples\<close>

text \<open>
  A nil element makes \<open>toRaw\<close> panic, and a container whose only item is itself makes
  it run forever; on the one-item container it returns the new array.
\<close>

lemma toRaw_h_nil_panics: "toRaw_h (Suc k) h HNil = Some (Inl NilDereference)"
  by simp

lemma toRaw_h_cycle_diverges:
  "toRaw_h k (Elements [HContainer ty sep (Ref 0 0 1)] # ext) (HContainer ty sep (Ref 0 0 1)) = None"
proof (induction k arbitrary: ext)
  case 0
  show ?case by simp
next
  case (Suc k)
  have "fill_h as_Elements (toRaw_h k) (Ref 0 0 1) (Ref (Suc (length ext)) 0 1) (Suc 0) 0
      (Elements [HContainer ty sep (Ref 0 0 1)] # ext @ [Anys [HRawNil]]) = None"
    using Suc [of "ext @ [Anys [HRawNil]]"] by simp
  then show ?case by (simp add: flatten_slice_def make_h_def)
qed

lemma toRaw_h_example:
  "toRaw_h (Suc (Suc 0)) [Elements [HTextBlock t]] (HContainer ty sep (Ref 0 0 1))
     = Some (Inr ([Elements [HTextBlock t], Anys [HRawTextBlock t]],
                  HRawItems ''Container'' (Ref 1 0 1)))"
  by (simp add: flatten_slice_def make_h_def)

lemma example_repr: "repr example_memory example_element example_tree"
  by (simp add: example_memory_def example_element_def example_tree_def)

lemma example_size: "size example_tree < 10"
  by (simp add: example_tree_def)

lemma example_Card_repr: "Card_repr example_memory example_hcard example_card"
  by (simp add: Card_repr_def example_memory_def example_hcard_def example_card_def)

lemma example_card_size: "size_list size (Card_Body example_card) < 10"
  by (simp add: example_card_def)

lemma example_toRaw_h:
  "toRaw_h 10 example_memory example_element
     = Some (Inr (example_memory @ [Anys [HRawTextBlock (NewTextBlock ''hi'')]],
                  HRawItems ''Container'' (Ref 1 0 1)))"
  by (simp add: example_memory_def example_element_def eval_nat_numeral flatten_slice_def make_h_def)

lemma example_MarshalJSON_h:
  "MarshalJSON_h (\<lambda>h r. Inr r :: error + hRawCard) 10 example_memory example_hcard
     = Some (Inr (example_memory @ [Anys [HRawTextBlock (NewTextBlock ''hi'')]],
          Inr \<lparr>hRawCard_Type = ''AdaptiveCard'', hRawCard_Version = ''1.6'',
               hRawCard_Body = Ref 1 0 1,
               hRawCard_Schema = ''http://adaptivecards.io/schemas/adaptive-card.json'',
               hRawCard_Actions = [], hRawCard_MSTeams = None\<rparr>))"
  by (simp add: example_memory_def example_hcard_def MarshalJSON_h_def eval_nat_numeral
      flatten_slice_def make_h_def)

section \<open>Memory: arrays that only grow\<close>















section \<open>Memory: one append\<close>













section \<open>Memory: runs of calls\<close>
























section \<open>Memory: a run on the example\<close>















section \<open>TextBlock\<close>

text \<open>
  C6: for every text, the constructor returns a TextBlock whose Wrap is true, and each of
  the helpers WithWeight, WithSize and WithSeparator leaves Type, Text and Wrap as they
  were: it changes its own field only.
\<close>

theorem C6_wrap_default_and_frame:
  "TextBlock_Wrap (NewTextBlock text) = True
   \<and> WithWeight t w = t\<lparr>TextBlock_Weight := w\<rparr>
   \<and> WithSize t s = t\<lparr>TextBlock_Size := s\<rparr>
   \<and> TextBlock_WithSeparator t = t\<lparr>TextBlock_Separator := True\<rparr>
   \<and> TextBlock_Wrap (WithWeight t w) = TextBlock_Wrap t
   \<and> TextBlock_Wrap (WithSize t s) = TextBlock_Wrap t
   \<and> TextBlock_Wrap (TextBlock_WithSeparator t) = TextBlock_Wrap t
   \<and> TextBlock_Type (WithWeight t w) = TextBlock_Type t
   \<and> TextBlock_Type (WithSize t s) = TextBlock_Type t
   \<and> TextBlock_Type (TextBlock_WithSeparator t) = TextBlock_Type t
   \<and> TextBlock_Text (WithWeight t w) = TextBlock_Text t
   \<and> TextBlock_Text (WithSize t s) = TextBlock_Text t
   \<and> TextBlock_Text (TextBlock_WithSeparator t) = TextBlock_Text t"
  by (simp add: NewTextBlock_def WithWeight_def WithSize_def TextBlock_WithSeparator_def)

section \<open>Properties of flattening and serialization\<close>

text \<open>
  C5: flattening a container always succeeds and gives the struct with the two fields
  type, equal to "Container", and items, the flattened children in order; its document has
  exactly the members type and items. WithSeparator sets the flag, and the flattened
  container is the same with the flag set or not.
\<close>

theorem C5_container_flatten:
  "(\<exists>items. toRaw (EContainer c) = Inr (RawItems ''Container'' items)
      \<and> map Inr items = map toRaw (Container_Items c)
      \<and> Raw_json (RawItems ''Container'' items) =
          JObject [(''type'', JString ''Container''), (''items'', JArray (map Raw_json items))]
      \<and> keys (Raw_json (RawItems ''Container'' items)) = [''type'', ''items''])
   \<and> Container_Separator (Container_WithSeparator c) = True
   \<and> toRaw (EContainer (Container_WithSeparator c)) = toRaw (EContainer c)"
proof -
  obtain items where "Container_toRaw c = Inr (RawItems ''Container'' items)"
    and "map Inr items = map toRaw (Container_Items c)"
    using Container_toRaw_items by blast
  then have "\<exists>items. toRaw (EContainer c) = Inr (RawItems ''Container'' items)
      \<and> map Inr items = map toRaw (Container_Items c)
      \<and> Raw_json (RawItems ''Container'' items) =
          JObject [(''type'', JString ''Container''), (''items'', JArray (map Raw_json items))]
      \<and> keys (Raw_json (RawItems ''Container'' items)) = [''type'', ''items'']"
    by (auto simp: json_string_ascii byte_def)
  moreover have "Container_Separator (Container_WithSeparator c) = True"
    by (cases c) simp
  moreover have "toRaw (EContainer (Container_WithSeparator c)) = toRaw (EContainer c)"
    by (cases c) simp
  ultimately show ?thesis by blast
qed

text \<open>
  C9: NewTable sets FirstRowAsHeaders to true; flattening a table always succeeds and
  gives the struct with the fields type, columns and rows only, whose document has exactly
  the members type, columns and rows; the flattened table is the same whether the flag is
  true or false.
\<close>

theorem C9_table_flatten_drops_header_flag:
  "Table_FirstRowAsHeaders NewTable = True
   \<and> (\<exists>rows. toRaw (ETable t) = Inr (RawTable (Table_Type t) (Table_Columns t) rows)
        \<and> map Inr rows = map TableRow_toRaw (Table_Rows t)
        \<and> keys (Raw_json (RawTable (Table_Type t) (Table_Columns t) rows)) =
            [''type'', ''columns'', ''rows''])
   \<and> toRaw (ETable (Table ty cols rws True)) = toRaw (ETable (Table ty cols rws False))"
proof -
  obtain rows where "Table_toRaw t = Inr (RawTable (Table_Type t) (Table_Columns t) rows)"
    and "map Inr rows = map TableRow_toRaw (Table_Rows t)"
    using Table_toRaw_rows by blast
  then have "\<exists>rows. toRaw (ETable t) = Inr (RawTable (Table_Type t) (Table_Columns t) rows)
        \<and> map Inr rows = map TableRow_toRaw (Table_Rows t)
        \<and> keys (Raw_json (RawTable (Table_Type t) (Table_Columns t) rows)) =
            [''type'', ''columns'', ''rows'']"
    by auto
  then show ?thesis by (simp add: NewTable_def)
qed

text \<open>
  C1: a table with the single column "auto" and a single row of two cells, each holding
  one TextBlock (as \<open>NewTable\<close>, \<open>AddColumn\<close>, \<open>AddRow\<close> and \<open>NewTableCell\<close> build it),
  flattens to three nested levels: the columns are the one column of width "auto", the one
  row value carries the row's type tag and two cell values, each cell value carries the
  cell's type tag and the flattened TextBlock as its only item. With the tags the
  constructors set, the document is the object with type "Table", columns
  [{"width":"auto"}] and one "TableRow" of two "TableCell" objects.
\<close>

theorem C1_table_three_levels:
  "AddRow (AddColumn NewTable ''auto'') [NewTableCell [ETextBlock a], NewTableCell [ETextBlock b]]
     = Table ''Table'' (Slice [\<lparr>TableCol_Width = ''auto''\<rparr>])
         [TableRow ''TableRow''
            [TableCell ''TableCell'' [ETextBlock a], TableCell ''TableCell'' [ETextBlock b]]] True
   \<and> toRaw (ETable (Table ty (Slice [\<lparr>TableCol_Width = ''auto''\<rparr>])
         [TableRow rty [TableCell cty1 [ETextBlock a], TableCell cty2 [ETextBlock b]]] hdr))
     = Inr (RawTable ty (Slice [\<lparr>TableCol_Width = ''auto''\<rparr>])
         [RawCells rty [RawItems cty1 [RawTextBlock a], RawItems cty2 [RawTextBlock b]]])
   \<and> toRaw (ETextBlock a) = Inr (RawTextBlock a)
   \<and> toRaw (ETextBlock b) = Inr (RawTextBlock b)
   \<and> Raw_json (RawTable ''Table'' (Slice [\<lparr>TableCol_Width = ''auto''\<rparr>])
         [RawCells ''TableRow''
            [RawItems ''TableCell'' [RawTextBlock a], RawItems ''TableCell'' [RawTextBlock b]]])
     = JObject
         [(''type'', JString ''Table''),
          (''columns'', JArray [JObject [(''width'', JString ''auto'')]]),
          (''rows'', JArray
             [JObject
                [(''type'', JString ''TableRow''),
                 (''cells'', JArray
                    [JObject [(''type'', JString ''TableCell''),
                              (''items'', JArray [TextBlock_json a])],
                     JObject [(''type'', JString ''TableCell''),
                              (''items'', JArray [TextBlock_json b])]])]])]"
  by (simp add: NewTable_def NewTableCell_def append_slice_def make_any_def set_index_def
      TableCol_json_def json_string_ascii byte_def)

text \<open>
  C3: a card with type, version and schema set, an empty body, no action and no mention
  metadata (a nil pointer): MarshalJSON hands the encoder the raw card with the empty,
  non-nil body, and the document of that raw card is the object with exactly the members
  type, version, body (the empty array) and $schema, in that order, with no actions
  member and no msteams member. For any raw card the msteams member is written exactly
  when the pointer is set, whatever the entities, and the actions member exactly when
  there is an action.
\<close>

theorem C3_minimal_card:
  "MarshalJSON marshal
       \<lparr>Card_Type = ty, Card_Version = ver, Card_Body = [], Card_Schema = sch,
        Card_Actions = [], Card_MSTeams = None\<rparr>
     = Inr (marshal
         \<lparr>RawCard_Type = ty, RawCard_Version = ver, RawCard_Body = [], RawCard_Schema = sch,
          RawCard_Actions = [], RawCard_MSTeams = None\<rparr>)
   \<and> RawCard_json
         \<lparr>RawCard_Type = ty, RawCard_Version = ver, RawCard_Body = [], RawCard_Schema = sch,
          RawCard_Actions = [], RawCard_MSTeams = None\<rparr>
       = JObject [(''type'', json_string ty), (''version'', json_string ver),
                  (''body'', JArray []), (''$schema'', json_string sch)]
   \<and> keys (RawCard_json
         \<lparr>RawCard_Type = ty, RawCard_Version = ver, RawCard_Body = [], RawCard_Schema = sch,
          RawCard_Actions = [], RawCard_MSTeams = None\<rparr>)
       = [''type'', ''version'', ''body'', ''$schema'']
   \<and> (''msteams'' \<in> set (keys (RawCard_json r))) = (RawCard_MSTeams r \<noteq> None)
   \<and> (''actions'' \<in> set (keys (RawCard_json r))) = (RawCard_Actions r \<noteq> [])"
proof -
  have "(''msteams'' \<in> set (keys (RawCard_json r))) = (RawCard_MSTeams r \<noteq> None)"
    by (cases "RawCard_MSTeams r") (simp_all add: RawCard_json_def)
  moreover have "(''actions'' \<in> set (keys (RawCard_json r))) = (RawCard_Actions r \<noteq> [])"
    by (cases "RawCard_MSTeams r") (simp_all add: RawCard_json_def)
  ultimately show ?thesis
    by (simp add: MarshalJSON_def RawCard_json_def make_any_def)
qed

text \<open>
  A card with an empty body, no action and mention metadata that is present and empty
  (\<open>&MSTeamsInfo{}\<close>): the raw card handed to the encoder has the pointer, and its
  document has the msteams member.
\<close>

theorem C3_counterexample:
  "MarshalJSON Inr
       \<lparr>Card_Type = ''AdaptiveCard'', Card_Version = ''1.6'', Card_Body = [],
        Card_Schema = ''http://adaptivecards.io/schemas/adaptive-card.json'',
        Card_Actions = [], Card_MSTeams = Some \<lparr>MSTeamsInfo_Entities = NilSlice\<rparr>\<rparr>
     = Inr (Inr
         \<lparr>RawCard_Type = ''AdaptiveCard'', RawCard_Version = ''1.6'', RawCard_Body = [],
          RawCard_Schema = ''http://adaptivecards.io/schemas/adaptive-card.json'',
          RawCard_Actions = [], RawCard_MSTeams = Some \<lparr>MSTeamsInfo_Entities = NilSlice\<rparr>\<rparr>)
   \<and> RawCard_json
         \<lparr>RawCard_Type = ''AdaptiveCard'', RawCard_Version = ''1.6'', RawCard_Body = [],
          RawCard_Schema = ''http://adaptivecards.io/schemas/adaptive-card.json'',
          RawCard_Actions = [], RawCard_MSTeams = Some \<lparr>MSTeamsInfo_Entities = NilSlice\<rparr>\<rparr>
       = JObject [(''type'', JString ''AdaptiveCard''), (''version'', JString ''1.6''),
                  (''body'', JArray []),
                  (''$schema'', JString ''http://adaptivecards.io/schemas/adaptive-card.json''),
                  (''msteams'', JObject [(''entities'', JNull)])]"
  by (simp add: MarshalJSON_def RawCard_json_def MSTeamsInfo_json_def make_any_def
      json_string_ascii byte_def)

text \<open>
  C4: AddMentionsMap never panics. It appends exactly one element to the body, the
  TextBlock whose text is the prefix followed, for each name in order, by a space and
  <at>name</at> (type "TextBlock", wrap true, nothing else set); and it appends exactly
  one entity, the fixed one with type "mention", text "@Team", the fixed id and the name
  "Team", to the mention metadata whatever the number of names, the metadata starting
  empty when the card had none. For the prefix "Hello" and the names Alice and Bob the
  text of the new block is "Hello <at>Alice</at> <at>Bob</at>".
\<close>

theorem C4_AddMentionsMap:
  "AddMentionsMap c textPrefix mentions =
     Inr (c\<lparr>Card_Body := Card_Body c @
              [ETextBlock
                 \<lparr>TextBlock_Type = ''TextBlock'',
                  TextBlock_Text =
                    textPrefix @ concat (map (\<lambda>n. '' <at>'' @ n @ ''</at>'') mentions),
                  TextBlock_Weight = '''', TextBlock_Size = '''', TextBlock_Wrap = True,
                  TextBlock_Separator = False\<rparr>],
            Card_MSTeams := Some \<lparr>MSTeamsInfo_Entities =
              Slice (elems (case Card_MSTeams c of
                              None \<Rightarrow> NilSlice
                            | Some info \<Rightarrow> MSTeamsInfo_Entities info)
                     @ [\<lparr>MSTeamsEntity_Type = ''mention'', MSTeamsEntity_Text = ''@Team'',
                         MSTeamsEntity_Mentioned =
                           \<lparr>Mention_ID = ''19:general@thread.tacv2'',
                            Mention_Name = ''Team''\<rparr>\<rparr>])\<rparr>\<rparr>)
   \<and> AddMentionsMap c ''Hello'' [''Alice'', ''Bob''] =
     Inr (c\<lparr>Card_Body := Card_Body c @
              [ETextBlock
                 \<lparr>TextBlock_Type = ''TextBlock'',
                  TextBlock_Text = ''Hello <at>Alice</at> <at>Bob</at>'',
                  TextBlock_Weight = '''', TextBlock_Size = '''', TextBlock_Wrap = True,
                  TextBlock_Separator = False\<rparr>],
            Card_MSTeams := Some \<lparr>MSTeamsInfo_Entities =
              Slice (elems (case Card_MSTeams c of
                              None \<Rightarrow> NilSlice
                            | Some info \<Rightarrow> MSTeamsInfo_Entities info)
                     @ [\<lparr>MSTeamsEntity_Type = ''mention'', MSTeamsEntity_Text = ''@Team'',
                         MSTeamsEntity_Mentioned =
                           \<lparr>Mention_ID = ''19:general@thread.tacv2'',
                            Mention_Name = ''Team''\<rparr>\<rparr>])\<rparr>\<rparr>)
   \<and> TextBlock_Text (NewTextBlock s) = s"
proof -
  have gen: "AddMentionsMap c p ms =
     Inr (c\<lparr>Card_Body := Card_Body c @
              [ETextBlock
                 \<lparr>TextBlock_Type = ''TextBlock'',
                  TextBlock_Text = p @ concat (map (\<lambda>n. '' <at>'' @ n @ ''</at>'') ms),
                  TextBlock_Weight = '''', TextBlock_Size = '''', TextBlock_Wrap = True,
                  TextBlock_Separator = False\<rparr>],
            Card_MSTeams := Some \<lparr>MSTeamsInfo_Entities =
              Slice (elems (case Card_MSTeams c of
                              None \<Rightarrow> NilSlice
                            | Some info \<Rightarrow> MSTeamsInfo_Entities info)
                     @ [\<lparr>MSTeamsEntity_Type = ''mention'', MSTeamsEntity_Text = ''@Team'',
                         MSTeamsEntity_Mentioned =
                           \<lparr>Mention_ID = ''19:general@thread.tacv2'',
                            Mention_Name = ''Team''\<rparr>\<rparr>])\<rparr>\<rparr>)" for p ms
    by (cases "Card_MSTeams c")
      (simp_all add: AddMentionsMap_def Let_def AddBody_def NewTextBlock_def build_text_concat
        append_slice_def team_entity_def)
  have "TextBlock_Text (NewTextBlock s) = s" by (simp add: NewTextBlock_def)
  with gen [of textPrefix mentions] gen [of "''Hello''" "[''Alice'', ''Bob'']"]
  show ?thesis by simp
qed

text \<open>
  C8: flattening an element never panics. MarshalJSON flattens every body element and
  returns exactly what the encoder returns on the raw card: it fails with an error
  precisely when the encoder fails with that error. In memory, for a card that is a
  finite tree and a call depth above its size, MarshalJSON returns, without panic, what
  the encoder returns on the raw card whose body is the flattened body.
\<close>

theorem C8_flatten_total_marshal_error_propagates:
  "(\<exists>r. toRaw e = Inr r)
   \<and> (\<exists>body. map Inr body = map toRaw (Card_Body c)
        \<and> MarshalJSON marshal c =
            Inr (marshal
              \<lparr>RawCard_Type = Card_Type c, RawCard_Version = Card_Version c,
               RawCard_Body = body, RawCard_Schema = Card_Schema c,
               RawCard_Actions = Card_Actions c, RawCard_MSTeams = Card_MSTeams c\<rparr>)
        \<and> (\<forall>err. (MarshalJSON marshal c = Inr (Inl err)) =
             (marshal
               \<lparr>RawCard_Type = Card_Type c, RawCard_Version = Card_Version c,
                RawCard_Body = body, RawCard_Schema = Card_Schema c,
                RawCard_Actions = Card_Actions c, RawCard_MSTeams = Card_MSTeams c\<rparr>
              = Inl err))
        \<and> (Card_repr h hc c \<and> size_list size (Card_Body c) < k \<longrightarrow>
             (\<exists>h' hraw. MarshalJSON_h marshal_h k h hc = Some (Inr (h', marshal_h h' hraw))
                \<and> RawCard_repr h' hraw
                     \<lparr>RawCard_Type = Card_Type c, RawCard_Version = Card_Version c,
                      RawCard_Body = body, RawCard_Schema = Card_Schema c,
                      RawCard_Actions = Card_Actions c, RawCard_MSTeams = Card_MSTeams c\<rparr>)))"
proof -
  obtain body where b: "map Inr body = map toRaw (Card_Body c)"
    and m: "MarshalJSON marshal c =
         Inr (marshal
           \<lparr>RawCard_Type = Card_Type c, RawCard_Version = Card_Version c,
            RawCard_Body = body, RawCard_Schema = Card_Schema c,
            RawCard_Actions = Card_Actions c, RawCard_MSTeams = Card_MSTeams c\<rparr>)"
    using MarshalJSON_body by blast
  from m have e: "\<forall>err. (MarshalJSON marshal c = Inr (Inl err)) =
             (marshal
               \<lparr>RawCard_Type = Card_Type c, RawCard_Version = Card_Version c,
                RawCard_Body = body, RawCard_Schema = Card_Schema c,
                RawCard_Actions = Card_Actions c, RawCard_MSTeams = Card_MSTeams c\<rparr>
              = Inl err)"
    by simp
  have hp: "Card_repr h hc c \<and> size_list size (Card_Body c) < k \<longrightarrow>
             (\<exists>h' hraw. MarshalJSON_h marshal_h k h hc = Some (Inr (h', marshal_h h' hraw))
                \<and> RawCard_repr h' hraw
                     \<lparr>RawCard_Type = Card_Type c, RawCard_Version = Card_Version c,
                      RawCard_Body = body, RawCard_Schema = Card_Schema c,
                      RawCard_Actions = Card_Actions c, RawCard_MSTeams = Card_MSTeams c\<rparr>)"
  proof
    assume "Card_repr h hc c \<and> size_list size (Card_Body c) < k"
    then have cr: "Card_repr h hc c" and fuel: "size_list size (Card_Body c) < k" by simp_all
    from MarshalJSON_h_refines [OF cr fuel, of marshal_h]
    obtain outs news body' where
      mh: "MarshalJSON_h marshal_h k h hc =
        Some (Inr (h @ Anys outs # news,
          marshal_h (h @ Anys outs # news)
            \<lparr>hRawCard_Type = Card_Type c, hRawCard_Version = Card_Version c,
             hRawCard_Body = Ref (length h) 0 (length (Card_Body c)),
             hRawCard_Schema = Card_Schema c,
             hRawCard_Actions = Card_Actions c, hRawCard_MSTeams = Card_MSTeams c\<rparr>))"
      and lo: "length outs = length (Card_Body c)"
      and rr: "list_all2 (raw_repr (length h) (h @ Anys outs # news)) outs body'"
      and mp: "map toRaw (Card_Body c) = map Inr body'"
      by blast
    from mp b have "map Inr body' = map Inr body" by simp
    then have bb: "body' = body" by (simp add: inj_map_eq_map)
    have "list_all2 (raw_repr 0 (h @ Anys outs # news)) outs body"
      using rr unfolding bb by (rule list.rel_mono_strong) (simp add: raw_repr_lower)
    then have "RawCard_repr (h @ Anys outs # news)
            \<lparr>hRawCard_Type = Card_Type c, hRawCard_Version = Card_Version c,
             hRawCard_Body = Ref (length h) 0 (length (Card_Body c)),
             hRawCard_Schema = Card_Schema c,
             hRawCard_Actions = Card_Actions c, hRawCard_MSTeams = Card_MSTeams c\<rparr>
            \<lparr>RawCard_Type = Card_Type c, RawCard_Version = Card_Version c,
             RawCard_Body = body, RawCard_Schema = Card_Schema c,
             RawCard_Actions = Card_Actions c, RawCard_MSTeams = Card_MSTeams c\<rparr>"
      using lo by (simp add: RawCard_repr_def)
    with mh show "\<exists>h' hraw. MarshalJSON_h marshal_h k h hc = Some (Inr (h', marshal_h h' hraw))
                \<and> RawCard_repr h' hraw
                     \<lparr>RawCard_Type = Card_Type c, RawCard_Version = Card_Version c,
                      RawCard_Body = body, RawCard_Schema = Card_Schema c,
                      RawCard_Actions = Card_Actions c, RawCard_MSTeams = Card_MSTeams c\<rparr>"
      by blast
  qed
  from b m e hp toRaw_total show ?thesis by blast
qed

theorem C8_flatten_total_marshal_error_propagates_witness:
  "(\<exists>r. toRaw example_tree = Inr r)
   \<and> (\<exists>body. map Inr body = map toRaw (Card_Body example_card)
        \<and> MarshalJSON (\<lambda>r. Inr (RawCard_json r) :: error + JSON) example_card =
            Inr ((\<lambda>r. Inr (RawCard_json r) :: error + JSON)
              \<lparr>RawCard_Type = Card_Type example_card, RawCard_Version = Card_Version example_card,
               RawCard_Body = body, RawCard_Schema = Card_Schema example_card,
               RawCard_Actions = Card_Actions example_card,
               RawCard_MSTeams = Card_MSTeams example_card\<rparr>)
        \<and> (Card_repr example_memory example_hcard example_card
             \<and> size_list size (Card_Body example_card) < 10)
        \<and> (\<exists>h' hraw. MarshalJSON_h (\<lambda>h r. Inr r :: error + hRawCard) 10 example_memory example_hcard
               = Some (Inr (h', Inr hraw))
             \<and> RawCard_repr h' hraw
                  \<lparr>RawCard_Type = Card_Type example_card, RawCard_Version = Card_Version example_card,
                   RawCard_Body = body, RawCard_Schema = Card_Schema example_card,
                   RawCard_Actions = Card_Actions example_card,
                   RawCard_MSTeams = Card_MSTeams example_card\<rparr>))"
  using C8_flatten_total_marshal_error_propagates [of example_tree example_card
      "\<lambda>r. Inr (RawCard_json r) :: error + JSON"
      example_memory example_hcard 10 "\<lambda>h r. Inr r :: error + hRawCard"]
    example_Card_repr example_card_size
  by blast

section \<open>Repeated and read-only flattening\<close>

text \<open>
  C7: for an element that is a finite tree in memory, two calls of toRaw, one after the
  other, both return, without panic; the two values returned are distinct arrays that
  represent one and the same flattened tree, the one toRaw gives on the tree, and the
  second call leaves the value of the first as it was.
\<close>

theorem C7_flatten_twice:
  assumes "repr h v e" and "size e < k1" and "size e < k2"
  shows "\<exists>h1 r1 h2 r2 r.
      toRaw_h k1 h v = Some (Inr (h1, r1)) \<and> toRaw_h k2 h1 v = Some (Inr (h2, r2))
      \<and> toRaw e = Inr r \<and> raw_repr 0 h1 r1 r \<and> raw_repr 0 h2 r1 r \<and> raw_repr 0 h2 r2 r"
proof -
  from toRaw_h_refines [OF assms(1,2), of "[]"]
  obtain new1 r1 r where c1: "toRaw_h k1 h v = Some (Inr (h @ new1, r1))"
    and p: "toRaw e = Inr r" and a1: "raw_repr (length h) (h @ new1) r1 r"
    by auto
  from toRaw_h_refines [OF assms(1,3), of new1]
  obtain new2 r2 r' where c2: "toRaw_h k2 (h @ new1) v = Some (Inr (h @ new1 @ new2, r2))"
    and p': "toRaw e = Inr r'" and a2: "raw_repr (length (h @ new1)) (h @ new1 @ new2) r2 r'"
    by auto
  from p p' have rr: "r' = r" by simp
  have b1: "raw_repr 0 (h @ new1) r1 r" using a1 by (rule raw_repr_lower) simp
  then have "raw_repr 0 ((h @ new1) @ new2) r1 r" by (rule raw_repr_extend)
  then have b2: "raw_repr 0 (h @ new1 @ new2) r1 r" by simp
  have b3: "raw_repr 0 (h @ new1 @ new2) r2 r" using a2 rr by (auto intro: raw_repr_lower)
  from c1 c2 p b1 b2 b3 show ?thesis by blast
qed

theorem C7_flatten_twice_witness:
  "repr example_memory example_element example_tree \<and> size example_tree < 10
   \<and> (\<exists>h1 r1 h2 r2 r.
        toRaw_h 10 example_memory example_element = Some (Inr (h1, r1))
        \<and> toRaw_h 10 h1 example_element = Some (Inr (h2, r2))
        \<and> toRaw example_tree = Inr r
        \<and> raw_repr 0 h1 r1 r \<and> raw_repr 0 h2 r1 r \<and> raw_repr 0 h2 r2 r)"
  using C7_flatten_twice [OF example_repr example_size example_size] example_repr example_size
  by blast

text \<open>
  C10: toRaw and MarshalJSON are read-only. Whenever a call returns, on any memory, the
  memory it leaves extends the one it found: every array that existed before the call is
  unchanged, the arrays the call made are the only difference. For an element, and for a
  card, that is a finite tree the call does return, and the element and the card represent
  the same trees as before, with all their fields. (The receiver is a copy, so the
  caller's struct is not reachable from the call.)
\<close>

theorem C10_flatten_and_serialize_read_only:
  "(toRaw_h k h v = Some (Inr (h1, r)) \<longrightarrow> extends h h1)
   \<and> (MarshalJSON_h marshal k h hc = Some (Inr (h2, res)) \<longrightarrow> extends h h2)
   \<and> (repr h v e \<and> size e < k \<longrightarrow>
        (\<exists>h' hr. toRaw_h k h v = Some (Inr (h', hr)) \<and> extends h h' \<and> repr h' v e))
   \<and> (Card_repr h hc c \<and> size_list size (Card_Body c) < k \<longrightarrow>
        (\<exists>h' res'. MarshalJSON_h marshal k h hc = Some (Inr (h', res')) \<and> extends h h'
           \<and> Card_repr h' hc c))"
proof (intro conjI impI)
  assume "toRaw_h k h v = Some (Inr (h1, r))"
  then show "extends h h1" by (rule toRaw_h_extends)
next
  assume "MarshalJSON_h marshal k h hc = Some (Inr (h2, res))"
  then show "extends h h2" by (rule MarshalJSON_h_extends)
next
  assume a: "repr h v e \<and> size e < k"
  then have "repr h v e" and "size e < k" by simp_all
  from toRaw_h_refines [OF this, of "[]"]
  obtain new hr where "toRaw_h k h v = Some (Inr (h @ new, hr))" by auto
  moreover have "repr (h @ new) v e" using a by (simp add: repr_extend)
  ultimately show "\<exists>h' hr. toRaw_h k h v = Some (Inr (h', hr)) \<and> extends h h' \<and> repr h' v e"
    using extends_append by blast
next
  assume a: "Card_repr h hc c \<and> size_list size (Card_Body c) < k"
  then have cr: "Card_repr h hc c" and fuel: "size_list size (Card_Body c) < k" by simp_all
  from MarshalJSON_h_refines [OF cr fuel, of marshal]
  obtain new res' where "MarshalJSON_h marshal k h hc = Some (Inr (h @ new, res'))" by blast
  moreover have "Card_repr (h @ new) hc c" using cr by (rule Card_repr_extend)
  ultimately show "\<exists>h' res'. MarshalJSON_h marshal k h hc = Some (Inr (h', res')) \<and> extends h h'
         \<and> Card_repr h' hc c"
    using extends_append by blast
qed

theorem C10_flatten_and_serialize_read_only_witness:
  "(toRaw_h 10 example_memory example_element
      = Some (Inr (example_memory @ [Anys [HRawTextBlock (NewTextBlock ''hi'')]],
                   HRawItems ''Container'' (Ref 1 0 1)))
    \<and> extends example_memory (example_memory @ [Anys [HRawTextBlock (NewTextBlock ''hi'')]]))
   \<and> (MarshalJSON_h (\<lambda>h r. Inr r :: error + hRawCard) 10 example_memory example_hcard
      = Some (Inr (example_memory @ [Anys [HRawTextBlock (NewTextBlock ''hi'')]],
          Inr \<lparr>hRawCard_Type = ''AdaptiveCard'', hRawCard_Version = ''1.6'',
               hRawCard_Body = Ref 1 0 1,
               hRawCard_Schema = ''http://adaptivecards.io/schemas/adaptive-card.json'',
               hRawCard_Actions = [], hRawCard_MSTeams = None\<rparr>)))
   \<and> (repr example_memory example_element example_tree \<and> size example_tree < 10)
   \<and> (\<exists>h' hr. toRaw_h 10 example_memory example_element = Some (Inr (h', hr))
        \<and> extends example_memory h' \<and> repr h' example_element example_tree)
   \<and> (Card_repr example_memory example_hcard example_card
        \<and> size_list size (Card_Body example_card) < 10)
   \<and> (\<exists>h' res'. MarshalJSON_h (\<lambda>h r. Inr r :: error + hRawCard) 10 example_memory example_hcard
          = Some (Inr (h', res'))
        \<and> extends example_memory h' \<and> Card_repr h' example_hcard example_card)"
  using C10_flatten_and_serialize_read_only [of 10 example_memory example_element
      "example_memory @ [Anys [HRawTextBlock (NewTextBlock ''hi'')]]"
      "HRawItems ''Container'' (Ref 1 0 1)"
      "\<lambda>h r. Inr r :: error + hRawCard" example_hcard
      "example_memory @ [Anys [HRawTextBlock (NewTextBlock ''hi'')]]"
      "Inr \<lparr>hRawCard_Type = ''AdaptiveCard'', hRawCard_Version = ''1.6'',
               hRawCard_Body = Ref 1 0 1,
               hRawCard_Schema = ''http://adaptivecards.io/schemas/adaptive-card.json'',
               hRawCard_Actions = [], hRawCard_MSTeams = None\<rparr>"
      example_tree example_card]
    example_toRaw_h example_MarshalJSON_h example_repr example_size example_Card_repr
    example_card_size
  by blast

section \<open>Appending in call order\<close>




end
